theory Spec2Isabelle
  imports Main "HOL-Library.Word" "HOL-Library.AList"
begin

unbundle bit_operations_syntax

section \<open>Crypto primitives (src/util/crypto.ts)\<close>

text \<open>
  A Node \<open>Buffer\<close> is a sequence of bytes. A JavaScript string is modelled as a
  \<open>string\<close> whose characters stand for the UTF-16 code units of the same number
  (U+0000 to U+00FF), so that \<open>length\<close> is the \<open>.length\<close> of the source.
\<close>

type_synonym byte = "8 word"
type_synonym Buffer = "byte list"

text \<open>\<open>Buffer.from(s)\<close> on a string: the UTF-8 encoding, one byte below U+0080, two above.\<close>

definition utf8_unit :: "char \<Rightarrow> byte list" where
  "utf8_unit c =
     (let n = (of_char c :: nat)
      in if n < 128 then [of_nat n]
         else [of_nat (192 + n div 64), of_nat (128 + n mod 64)])"

definition Buffer_from :: "string \<Rightarrow> Buffer" where
  "Buffer_from s = concat (map utf8_unit s)"

text \<open>
  \<open>xor(a, b)\<close>: either argument is a string (\<open>Inl\<close>) or a Buffer (\<open>Inr\<close>); strings are
  converted first. The \<open>for\<close> loop pushes \<open>a[i] ^ b[i]\<close> for \<open>i\<close> below \<open>minLength\<close>.
\<close>

definition toBuffer :: "string + Buffer \<Rightarrow> Buffer" where
  "toBuffer a = (case a of Inl s \<Rightarrow> Buffer_from s | Inr b \<Rightarrow> b)"

function xor_loop :: "Buffer \<Rightarrow> Buffer \<Rightarrow> nat \<Rightarrow> nat \<Rightarrow> byte list \<Rightarrow> byte list" where
  "xor_loop a b minLength i result =
     (if i < minLength
      then xor_loop a b minLength (i + 1) (result @ [(a ! i) XOR (b ! i)])
      else result)"
  by pat_completeness auto
termination
  by (relation "measure (\<lambda>(a, b, minLength, i, result). minLength - i)") auto

definition xor_buf :: "string + Buffer \<Rightarrow> string + Buffer \<Rightarrow> Buffer" where
  "xor_buf a0 b0 =
     (let a = toBuffer a0;
          b = toBuffer b0;
          minLength = (if length a > length b then length b else length a)
      in xor_loop a b minLength 0 [])"

section \<open>JavaScript values\<close>

text \<open>
  Values that travel as JSON or are held in plain objects. Numbers are the integers
  (the counters, ids, time stamps and error codes of the protocol), within the range in
  which JavaScript's numbers are exact. An object is the list of its own properties in
  insertion order; \<open>AList.update\<close> is the assignment \<open>o[k] = v\<close> and \<open>map_of\<close> the read.
\<close>

datatype js =
    Undefined
  | Null
  | Bool bool
  | Num int
  | Str string
  | Arr "js list"
  | Obj "(string \<times> js) list"

type_synonym object = "(string \<times> js) list"

datatype error =
    KeyFormatError           \<comment> \<open>Application key or base key have invalid format\<close>
  | PublicKeyError           \<comment> \<open>Public key is missing or have invalid format\<close>
  | ProtocolError            \<comment> \<open>protocol is not specified\<close>
  | LoginKeyError            \<comment> \<open>login key is not specified or it have invalid format\<close>
  | LoginPasswdError         \<comment> \<open>login passwd is not specified or it have invalid format\<close>
  | AccountLocked            \<comment> \<open>This account is locked a.k.a. banned\<close>
  | MaxAttempts string       \<comment> \<open>Maximum reconnecting attempts reached, with \<open>err.message\<close>\<close>
  | Maintenance              \<comment> \<open>The server is under maintenance\<close>
  | UnableToConnect          \<comment> \<open>Unable to connect to server\<close>
  | WrongCredentials         \<comment> \<open>wrong credentials\<close>
  | InvalidResponse          \<comment> \<open>Invalid response: response_data is missing\<close>
  | SyntaxError              \<comment> \<open>raised by \<open>JSON.parse\<close>\<close>
  | TypeError                \<comment> \<open>raised by a property read on \<open>undefined\<close> or \<open>null\<close>\<close>
  | LookupError string       \<comment> \<open>the version lookup failed\<close>
  | CipherError              \<comment> \<open>raised by \<open>createCipheriv\<close> on a key or iv of the wrong size\<close>
  | AssertationError         \<comment> \<open>TODO? / Unimplemented, from \<open>getAssertation\<close>\<close>
  | PublicEncryptError       \<comment> \<open>raised by \<open>crypto.publicEncrypt\<close> on a key it cannot read\<close>
  | IllTyped                 \<comment> \<open>not an error of the source: see \<open>login\<close>\<close>

text \<open>Truthiness, as \<open>if (v)\<close> and \<open>!v\<close> test it.\<close>

fun truthy :: "js \<Rightarrow> bool" where
  "truthy Undefined = False"
| "truthy Null = False"
| "truthy (Bool b) = b"
| "truthy (Num n) = (n \<noteq> 0)"
| "truthy (Str s) = (s \<noteq> [])"
| "truthy (Arr xs) = True"
| "truthy (Obj ps) = True"

text \<open>
  The read \<open>v.k\<close> of a property that no prototype defines: a TypeError on \<open>undefined\<close>
  and \<open>null\<close>, the own property of an object, \<open>undefined\<close> otherwise.
\<close>

fun get_prop :: "js \<Rightarrow> string \<Rightarrow> error + js" where
  "get_prop Undefined k = Inl TypeError"
| "get_prop Null k = Inl TypeError"
| "get_prop (Obj ps) k = (case map_of ps k of None \<Rightarrow> Inr Undefined | Some v \<Rightarrow> Inr v)"
| "get_prop v k = Inr Undefined"

text \<open>\<open>k in o\<close> on a plain object.\<close>

definition has_key :: "object \<Rightarrow> string \<Rightarrow> bool" where
  "has_key ps k = (map_of ps k \<noteq> None)"

text \<open>\<open>n.toString()\<close> and \<open>`${n}`\<close> on an integer: decimal digits, with a sign.\<close>

fun digits :: "nat \<Rightarrow> string" where
  "digits n =
     (if n < 10 then [''0123456789'' ! n]
      else digits (n div 10) @ [''0123456789'' ! (n mod 10)])"

declare digits.simps [simp del]

definition Number_toString :: "int \<Rightarrow> string" where
  "Number_toString n = (if n < 0 then CHR ''-'' # digits (nat (- n)) else digits (nat n))"

text \<open>\<open>s.includes(p)\<close>.\<close>

fun includes_str :: "string \<Rightarrow> string \<Rightarrow> bool" where
  "includes_str [] p = (p = [])"
| "includes_str (c # cs) p = (take (length p) (c # cs) = p \<or> includes_str cs p)"

text \<open>
  \<open>s.split(d)\<close> on a one-character separator: the pieces between the occurrences of
  \<open>d\<close>, the empty ones included. The empty string gives one empty piece, \<open>user/\<close> gives
  \<open>user\<close> and an empty piece, and the result is never the empty array.
\<close>

fun split :: "string \<Rightarrow> char \<Rightarrow> string list" where
  "split [] d = ['''']"
| "split (c # cs) d =
     (if c = d then [] # split cs d
      else (c # hd (split cs d)) # tl (split cs d))"

text \<open>\<open>xs[i]\<close> on an array of strings: \<open>undefined\<close> out of range.\<close>

definition at_index :: "string list \<Rightarrow> nat \<Rightarrow> js" where
  "at_index xs i = (if i < length xs then Str (xs ! i) else Undefined)"

text \<open>\<open>buf.toString("hex")\<close>.\<close>

definition hex_digit :: "nat \<Rightarrow> char" where
  "hex_digit n = ''0123456789abcdef'' ! n"

definition toString_hex :: "Buffer \<Rightarrow> string" where
  "toString_hex b = concat (map (\<lambda>x. [hex_digit (unat x div 16), hex_digit (unat x mod 16)]) b)"

section \<open>Regular expressions of the credential checks\<close>

text \<open>
  The patterns of the source are sequences of one-character classes. With the flag
  \<open>i\<close> a class of capitals also accepts the small letters.
\<close>

type_synonym char_class = "char \<Rightarrow> bool"

definition cls_0_9A_F :: char_class where \<comment> \<open>\<open>[0-9A-F]\<close>, flag \<open>i\<close>\<close>
  "cls_0_9A_F c = (c \<in> set ''0123456789ABCDEFabcdef'')"

definition cls_89AB :: char_class where \<comment> \<open>\<open>[89AB]\<close>, flag \<open>i\<close>\<close>
  "cls_89AB c = (c \<in> set ''89ABab'')"

definition cls_0_9A_Z :: char_class where \<comment> \<open>\<open>[0-9A-Z]\<close>, flag \<open>i\<close>\<close>
  "cls_0_9A_Z c =
     (c \<in> set ''0123456789ABCDEFGHIJKLMNOPQRSTUVWXYZabcdefghijklmnopqrstuvwxyz'')"

definition cls_lit :: "char \<Rightarrow> char_class" where
  "cls_lit d c = (c = d)"

text \<open>A pattern between \<open>^\<close> and \<open>$\<close> matches the whole string.\<close>

definition match_whole :: "char_class list \<Rightarrow> string \<Rightarrow> bool" where
  "match_whole ps s = list_all2 (\<lambda>p c. p c) ps s"

text \<open>A pattern after \<open>^\<close> with no \<open>$\<close> matches a prefix of the string.\<close>

definition match_prefix :: "char_class list \<Rightarrow> string \<Rightarrow> bool" where
  "match_prefix ps s = (length ps \<le> length s \<and> list_all2 (\<lambda>p c. p c) ps (take (length ps) s))"

text \<open>\<open>/^[0-9A-F]{8}-[0-9A-F]{4}-4[0-9A-F]{3}-[89AB][0-9A-F]{3}-[0-9A-F]{12}$/gi\<close>\<close>

definition loginKey_pattern :: "char_class list" where
  "loginKey_pattern =
     replicate 8 cls_0_9A_F @ [cls_lit CHR ''-''] @
     replicate 4 cls_0_9A_F @ [cls_lit CHR ''-''] @
     [cls_lit CHR ''4''] @ replicate 3 cls_0_9A_F @ [cls_lit CHR ''-''] @
     [cls_89AB] @ replicate 3 cls_0_9A_F @ [cls_lit CHR ''-''] @
     replicate 12 cls_0_9A_F"

text \<open>\<open>/^[0-9A-Z]{128}/gi\<close>\<close>

definition loginPasswd_pattern :: "char_class list" where
  "loginPasswd_pattern = replicate 128 cls_0_9A_Z"

section \<open>The client object\<close>

datatype gameMode = MUSE | AQOURS

datatype platformType = iOS | Android

fun gameMode_value :: "gameMode \<Rightarrow> int" where
  "gameMode_value MUSE = 1"
| "gameMode_value AQOURS = 2"

fun platformType_value :: "platformType \<Rightarrow> int" where
  "platformType_value iOS = 1"
| "platformType_value Android = 2"

definition defaultHost :: string where
  "defaultHost = ''https://prod-jp.lovelive.ge.klabgames.net''"

definition defaultApplicationId :: int where
  "defaultApplicationId = 626776655"

definition defaultPlatform :: platformType where
  "defaultPlatform = iOS"

definition defaultOsVersion :: string where
  "defaultOsVersion = ''iPhone10_1 iPhone 11.3''"

definition defaultClientVersion :: string where
  "defaultClientVersion = ''41.4''"

definition defaultBundleVersion :: string where
  "defaultBundleVersion = ''6.9.1''"

text \<open>\<open>IConfig\<close>: an optional field is an \<open>option\<close>.\<close>

record IConfig =
  opt_host :: "string option"
  opt_gameMode :: "gameMode option"
  opt_platformType :: "platformType option"
  opt_applicationId :: "int option"
  opt_bundleVersion :: "string option"
  opt_clientVersion :: "string option"
  opt_osVersion :: "string option"
  opt_loginKey :: "string option"
  opt_loginPasswd :: "string option"
  opt_publicKey :: string
  opt_baseKey :: string
  opt_applicationKey :: string

record ISession =
  authToken :: string
  userId :: int
  mgd :: gameMode
  nonce :: int
  commandNum :: int
  bundleVersion :: string
  clientVersion :: string

record IKeychain =
  rsaPublicKey :: string
  applicationKey :: string
  baseKey :: string
  loginKey :: string
  loginPasswd :: string
  sessionKey :: Buffer

record Gris =
  session :: ISession
  keychain :: IKeychain
  HOST :: string
  osVersion :: string
  platformType :: platformType
  applicationId :: int

text \<open>The field initialisers of the class.\<close>

definition initial_Gris :: Gris where
  "initial_Gris =
     \<lparr> session = \<lparr> authToken = [], userId = 0, mgd = AQOURS, nonce = 0, commandNum = 2,
                   bundleVersion = defaultBundleVersion, clientVersion = defaultClientVersion \<rparr>,
       keychain = \<lparr> rsaPublicKey = [], applicationKey = [], baseKey = [], loginKey = [],
                    loginPasswd = [], sessionKey = replicate 32 0 \<rparr>,
       HOST = defaultHost,
       osVersion = defaultOsVersion,
       platformType = defaultPlatform,
       applicationId = defaultApplicationId \<rparr>"

text \<open>The two format tests, written in the constructor and again in \<open>login\<close>.\<close>

definition loginKey_ok :: "string \<Rightarrow> bool" where
  "loginKey_ok k = (length k = 36 \<and> match_whole loginKey_pattern k)"

definition loginPasswd_ok :: "string \<Rightarrow> bool" where
  "loginPasswd_ok p = (length p = 128 \<and> match_prefix loginPasswd_pattern p)"

text \<open>
  A guarded assignment of the constructor, \<open>if (test(options.x)) this.y = options.x\<close>:
  nothing is assigned when the field is absent or fails the test.
\<close>

definition assign_if ::
  "'a option \<Rightarrow> ('a \<Rightarrow> bool) \<Rightarrow> ('a \<Rightarrow> Gris \<Rightarrow> Gris) \<Rightarrow> Gris \<Rightarrow> Gris" where
  "assign_if x test assign g =
     (case x of None \<Rightarrow> g | Some v \<Rightarrow> if test v then assign v g else g)"

text \<open>
  The constructor. A test \<open>if (options.x)\<close> on an optional string or number is false
  when the field is absent, empty or zero; both values of each enumeration are true.
\<close>

definition constructor :: "IConfig \<Rightarrow> error + Gris" where
  "constructor options =
     (let g0 = initial_Gris;
          g1 = assign_if (opt_loginKey options) loginKey_ok
                 (\<lambda>k g. g\<lparr>keychain := (keychain g)\<lparr>loginKey := k\<rparr>\<rparr>) g0;
          g2 = assign_if (opt_loginPasswd options) loginPasswd_ok
                 (\<lambda>p g. g\<lparr>keychain := (keychain g)\<lparr>loginPasswd := p\<rparr>\<rparr>) g1
      in if length (opt_baseKey options) \<noteq> 32 \<or> length (opt_applicationKey options) \<noteq> 32
         then Inl KeyFormatError
         else if length (opt_publicKey options) = 0 \<or> length (opt_publicKey options) < 250
         then Inl PublicKeyError
         else
           let g3 = g2\<lparr>keychain := (keychain g2)
                         \<lparr>rsaPublicKey := opt_publicKey options,
                          applicationKey := opt_applicationKey options,
                          baseKey := opt_baseKey options\<rparr>\<rparr>
           in if (case opt_host options of
                    None \<Rightarrow> False | Some h \<Rightarrow> h \<noteq> [] \<and> \<not> includes_str h ''://'')
              then Inl ProtocolError
              else
                let g4 = assign_if (opt_host options) (\<lambda>h. h \<noteq> []) (\<lambda>h g. g\<lparr>HOST := h\<rparr>) g3;
                    g5 = assign_if (opt_applicationId options) (\<lambda>a. a \<noteq> 0)
                           (\<lambda>a g. g\<lparr>applicationId := a\<rparr>) g4;
                    g6 = assign_if (opt_platformType options) (\<lambda>p. True)
                           (\<lambda>p g. g\<lparr>platformType := p\<rparr>) g5;
                    g7 = assign_if (opt_osVersion options) (\<lambda>v. v \<noteq> [])
                           (\<lambda>v g. g\<lparr>osVersion := v\<rparr>) g6;
                    g8 = assign_if (opt_gameMode options) (\<lambda>m. True)
                           (\<lambda>m g. g\<lparr>session := (session g)\<lparr>mgd := m\<rparr>\<rparr>) g7
                in Inr g8)"

section \<open>The environment and the state of a run\<close>

text \<open>
  An awaited POST either rejects with an error object, of which the code reads
  \<open>status\<close> and \<open>message\<close>, or resolves with a response, of which it reads the headers
  and the text. The text is given by the value \<open>JSON.parse\<close> yields for it, \<open>None\<close> when
  \<open>JSON.parse\<close> raises.
\<close>

record response =
  header :: "(string \<times> string) list"
  text_json :: "js option"

datatype outcome =
    Rejected "int option" string
  | Resolved response

record IAuthorize =
  auth_consumerKey :: string
  auth_timeStamp :: int
  auth_version :: string
  auth_nonce :: int
  auth_token :: "string option"

text \<open>
  A transmitted POST: its headers as sent, with the fields from which the
  \<open>Authorize\<close> header was built, and the body when one is sent.
\<close>

record request =
  url :: string
  headers :: "(string \<times> string) list"
  req_authorize :: IAuthorize
  body :: "string option"

text \<open>
  What the program reads from outside: the clock at its \<open>k\<close>-th reading, the outcome of
  the \<open>k\<close>-th POST, the \<open>i\<close>-th byte of the \<open>k\<close>-th random draw, the outcome of the
  \<open>k\<close>-th version lookup (the version, or the error raised on the way to it), and the
  library functions it calls. \<open>JSON_stringify v\<close> is the text \<open>`${JSON.stringify(v)}`\<close>;
  \<open>cipher_aes_128_cbc key iv data\<close> is the output of the cipher, \<open>update\<close> then \<open>final\<close>.
\<close>

record environment =
  clock :: "nat \<Rightarrow> int"
  net :: "nat \<Rightarrow> outcome"
  randomBytes :: "nat \<Rightarrow> nat \<Rightarrow> byte"
  createHmac_sha1_hex :: "Buffer \<Rightarrow> string \<Rightarrow> string"
  JSON_stringify :: "js \<Rightarrow> string"
  querystring_stringify :: "IAuthorize \<Rightarrow> string"
  lookup :: "nat \<Rightarrow> error + string"
  cipher_aes_128_cbc :: "Buffer \<Rightarrow> Buffer \<Rightarrow> string \<Rightarrow> Buffer"
  publicEncrypt :: "string \<Rightarrow> Buffer \<Rightarrow> error + Buffer"
  toString_base64 :: "Buffer \<Rightarrow> string"
  Buffer_from_base64 :: "string \<Rightarrow> Buffer"

text \<open>
  The state: the client object, the objects that callers hand over by reference, the
  counts of the clock readings and random draws so far, the POSTs transmitted so far
  and the application ids looked up so far.
\<close>

record state =
  gris :: Gris
  heap :: "nat \<Rightarrow> object"
  next_addr :: nat
  ticks :: nat
  draws :: nat
  sent :: "request list"
  lookups :: "int list"

definition upd_session :: "(ISession \<Rightarrow> ISession) \<Rightarrow> state \<Rightarrow> state" where
  "upd_session f s = s\<lparr>gris := (gris s)\<lparr>session := f (session (gris s))\<rparr>\<rparr>"

definition upd_keychain :: "(IKeychain \<Rightarrow> IKeychain) \<Rightarrow> state \<Rightarrow> state" where
  "upd_keychain f s = s\<lparr>gris := (gris s)\<lparr>keychain := f (keychain (gris s))\<rparr>\<rparr>"

text \<open>An object literal: a new object at a new address.\<close>

definition new_object :: "object \<Rightarrow> state \<Rightarrow> nat \<times> state" where
  "new_object ps s =
     (next_addr s, s\<lparr>heap := (heap s)(next_addr s := ps), next_addr := next_addr s + 1\<rparr>)"

text \<open>The assignment \<open>o.k = v\<close> and the read \<open>o.k\<close> on the object at an address.\<close>

definition set_field :: "nat \<Rightarrow> string \<Rightarrow> js \<Rightarrow> state \<Rightarrow> state" where
  "set_field a k v s = s\<lparr>heap := (heap s)(a := AList.update k v (heap s a))\<rparr>"

definition field :: "object \<Rightarrow> string \<Rightarrow> js" where
  "field ps k = (case map_of ps k of None \<Rightarrow> Undefined | Some v \<Rightarrow> v)"

section \<open>Helpers (src/util/helpers.ts, src/util/crypto.ts)\<close>

definition timeStamp :: "environment \<Rightarrow> state \<Rightarrow> int \<times> state" where
  "timeStamp env s = (clock env (ticks s), s\<lparr>ticks := ticks s + 1\<rparr>)"

definition hmacSha1 :: "environment \<Rightarrow> string \<Rightarrow> Buffer \<Rightarrow> string" where
  "hmacSha1 env data key = createHmac_sha1_hex env key data"

text \<open>\<open>createCipheriv("aes-128-cbc", key, iv)\<close> raises unless both have 16 bytes.\<close>

definition aes128cbcEncrypt :: "environment \<Rightarrow> string \<Rightarrow> Buffer \<Rightarrow> Buffer \<Rightarrow> error + string" where
  "aes128cbcEncrypt env data key iv =
     (if length key \<noteq> 16 \<or> length iv \<noteq> 16 then Inl CipherError
      else Inr (toString_base64 env (iv @ cipher_aes_128_cbc env key iv data)))"

definition crypto_randomBytes :: "environment \<Rightarrow> nat \<Rightarrow> state \<Rightarrow> Buffer \<times> state" where
  "crypto_randomBytes env n s =
     (map (randomBytes env (draws s)) [0 ..< n], s\<lparr>draws := draws s + 1\<rparr>)"

section \<open>The signed transport\<close>

text \<open>
  The waits between attempts (\<open>sleep\<close>) and the debug output change nothing of the
  state and are left out.
\<close>

definition getPlatformString :: "Gris \<Rightarrow> string" where
  "getPlatformString g = (if platformType g = iOS then ''iOS'' else ''Android'')"

definition getHeaders :: "Gris \<Rightarrow> (string \<times> string) list" where
  "getHeaders g =
     [(''Accept'', ''*/*''),
      (''API-Model'', ''straightforward''),
      (''Debug'', ''1''),
      (''Bundle-Version'', bundleVersion (session g)),
      (''Client-Version'', clientVersion (session g)),
      (''OS-Version'', osVersion g),
      (''OS'', getPlatformString g),
      (''Platform-Type'', Number_toString (platformType_value (platformType g))),
      (''Application-ID'', Number_toString (applicationId g)),
      (''Time-Zone'', ''JST''),
      (''Region'', ''392''),
      (''X-BUNDLE-ID'', ''klb.android.lovelive'')]"

definition getAuthorizeString :: "environment \<Rightarrow> state \<Rightarrow> (IAuthorize \<times> string) \<times> state" where
  "getAuthorizeString env s =
     (let (t, s1) = timeStamp env s;
          authorize =
            \<lparr> auth_consumerKey = ''lovelive_test'',
              auth_timeStamp = t,
              auth_version = ''1.1'',
              auth_nonce = nonce (session (gris s1)),
              auth_token = (if length (authToken (session (gris s1))) > 0
                            then Some (authToken (session (gris s1))) else None) \<rparr>
      in ((authorize, querystring_stringify env authorize), s1))"

definition createMultipart :: "environment \<Rightarrow> string \<Rightarrow> state \<Rightarrow> (string \<times> string) \<times> state" where
  "createMultipart env requestBody s =
     (let (rnd, s1) = crypto_randomBytes env 8 s;
          boundary = replicate 24 CHR ''-'' @ toString_hex rnd;
          body = ''--'' @ boundary @ [CHR 0x0D, CHR 0x0A] @
                 ''Content-Disposition: form-data; name='' @ [CHR 0x22] @ ''request_data'' @ [CHR 0x22] @
                 [CHR 0x0D, CHR 0x0A, CHR 0x0D, CHR 0x0A] @
                 requestBody @ [CHR 0x0D, CHR 0x0A] @
                 ''--'' @ boundary @ ''--'' @ [CHR 0x0D, CHR 0x0A];
          contentType = ''multipart/form-data; boundary='' @ boundary
      in ((contentType, body), s1))"

text \<open>A header value used as a condition: present and not empty.\<close>

definition header_truthy :: "(string \<times> string) list \<Rightarrow> string \<Rightarrow> bool" where
  "header_truthy h k = (case map_of h k of None \<Rightarrow> False | Some v \<Rightarrow> v \<noteq> [])"

text \<open>
  One pass through the body of the \<open>for\<close> loop of \<open>postRequest\<close>: how it ends
  (\<open>throw\<close>, \<open>continue\<close> or \<open>break\<close>) and the loop's variables \<open>headers\<close> and \<open>response\<close>
  after it.
\<close>

datatype flow = Throw error | Continue | Break

definition attempt_body ::
  "environment \<Rightarrow> string \<Rightarrow> js \<Rightarrow> string \<Rightarrow> nat \<Rightarrow> (string \<times> string) list \<Rightarrow>
   response option \<Rightarrow> state \<Rightarrow> flow \<times> (string \<times> string) list \<times> response option \<times> state" where
  "attempt_body env endPoint formData requestBody attempt headers0 response s =
     (let s1 = upd_session (\<lambda>x. x\<lparr>nonce := nonce x + 1\<rparr>) s;
          ((authorize, authorizeString), s2) = getAuthorizeString env s1;
          headers1 = AList.update ''Authorize'' authorizeString headers0;
          s3 = s2\<lparr>sent := sent s2 @
                 [\<lparr> url = HOST (gris s2) @ ''/main.php/'' @ endPoint,
                    headers = headers1,
                    req_authorize = authorize,
                    body = (if formData \<noteq> Undefined then Some requestBody else None) \<rparr>]\<rparr>
      in case net env (length (sent s2)) of
           Rejected status message \<Rightarrow>
             if status = Some 423 then (Throw AccountLocked, headers1, response, s3)
             else if attempt = 5 then (Throw (MaxAttempts message), headers1, response, s3)
             else (Continue, headers1, response, s3)
         | Resolved r \<Rightarrow>
             if header_truthy (header r) ''maintenance''
             then (Throw Maintenance, headers1, Some r, s3)
             else (case map_of (header r) ''server-version'' of
                     None \<Rightarrow> (Break, headers1, Some r, s3)
                   | Some v \<Rightarrow>
                       if v \<noteq> [] \<and> v \<noteq> clientVersion (session (gris s3)) \<and>
                          \<not> includes_str endPoint ''login''
                       then (Continue, headers1, Some r,
                             upd_session (\<lambda>x. x\<lparr>nonce := nonce x + 1\<rparr>)
                               (upd_session (\<lambda>x. x\<lparr>clientVersion := v\<rparr>) s3))
                       else (Break, headers1, Some r, s3)))"

text \<open>\<open>for (let attempt = 1; attempt <= 5; attempt++)\<close>: \<open>continue\<close> runs \<open>attempt++\<close>.\<close>

function postRequest_loop ::
  "environment \<Rightarrow> string \<Rightarrow> js \<Rightarrow> string \<Rightarrow> nat \<Rightarrow> (string \<times> string) list \<Rightarrow>
   response option \<Rightarrow> state \<Rightarrow> (error + response option) \<times> state" where
  "postRequest_loop env endPoint formData requestBody attempt headers0 response s =
     (if attempt \<le> 5
      then (case attempt_body env endPoint formData requestBody attempt headers0 response s of
              (Throw e, headers1, response1, s1) \<Rightarrow> (Inl e, s1)
            | (Continue, headers1, response1, s1) \<Rightarrow>
                postRequest_loop env endPoint formData requestBody (attempt + 1)
                  headers1 response1 s1
            | (Break, headers1, response1, s1) \<Rightarrow> (Inr response1, s1))
      else (Inr response, s))"
  by pat_completeness auto
termination
  by (relation "measure (\<lambda>(env, endPoint, formData, requestBody, attempt, headers0, response, s).
                           6 - attempt)") auto

declare postRequest_loop.simps [simp del]

text \<open>The statements of \<open>postRequest\<close> after the loop.\<close>

definition read_response :: "response option \<Rightarrow> error + js" where
  "read_response response =
     (case response of
        None \<Rightarrow> Inl UnableToConnect
      | Some r \<Rightarrow>
          (case text_json r of
             None \<Rightarrow> Inl SyntaxError
           | Some responseBody \<Rightarrow>
               (case get_prop responseBody ''response_data'' of
                  Inl e \<Rightarrow> Inl e
                | Inr response_data \<Rightarrow>
                    (case get_prop response_data ''error_code'' of
                       Inl e \<Rightarrow> Inl e
                     | Inr error_code \<Rightarrow>
                         if error_code = Num 407 then Inl WrongCredentials
                         else if \<not> truthy response_data then Inl InvalidResponse
                         else Inr responseBody))))"

definition postRequest ::
  "environment \<Rightarrow> string \<Rightarrow> Buffer \<Rightarrow> js \<Rightarrow> state \<Rightarrow> (error + js) \<times> state" where
  "postRequest env endPoint signKey formData s =
     (let ((contentType, requestBody), s1) = createMultipart env (JSON_stringify env formData) s;
          headers0 = getHeaders (gris s1);
          headers1 = (if formData \<noteq> Undefined
                      then AList.update ''Content-Type'' contentType
                             (AList.update ''Content-Length'' (Number_toString (int (length requestBody)))
                               (AList.update ''X-Message-Code''
                                  (hmacSha1 env (JSON_stringify env formData) signKey) headers0))
                      else headers0);
          headers2 = (if userId (session (gris s1)) \<noteq> 0
                      then AList.update ''User-ID'' (Number_toString (userId (session (gris s1)))) headers1
                      else headers1)
      in case postRequest_loop env endPoint formData requestBody 1 headers2 None s1 of
           (Inl e, s2) \<Rightarrow> (Inl e, s2)
         | (Inr response, s2) \<Rightarrow> (read_response response, s2))"

section \<open>The request envelope builder\<close>

record IAPIRequestOptions =
  excludeDefaultValues :: bool
  useSpecialKey :: bool

text \<open>\<open>`${this.keychain.loginKey}.${timeStamp()}.${this.session.commandNum}`\<close>\<close>

definition command_token :: "environment \<Rightarrow> state \<Rightarrow> string \<times> state" where
  "command_token env s =
     (let (t, s1) = timeStamp env s
      in (loginKey (keychain (gris s1)) @ ''.'' @ Number_toString t @ ''.'' @
          Number_toString (commandNum (session (gris s1))), s1))"

definition special_key :: "IKeychain \<Rightarrow> Buffer" where
  "special_key k =
     xor_buf (Inl (take 16 (applicationKey k))) (Inl (take 16 (drop 16 (baseKey k)))) @
     xor_buf (Inl (take 16 (drop 16 (applicationKey k)))) (Inl (take 16 (baseKey k)))"

text \<open>The restamping of the fields the caller's object already has.\<close>

definition restamp :: "environment \<Rightarrow> nat \<Rightarrow> state \<Rightarrow> state" where
  "restamp env requestData s =
     (let s1 = (if has_key (heap s requestData) ''timeStamp''
                then (let (t, s') = timeStamp env s
                      in set_field requestData ''timeStamp'' (Num t) s')
                else s);
          s2 = (if has_key (heap s1 requestData) ''mgd''
                then set_field requestData ''mgd''
                       (Num (gameMode_value (mgd (session (gris s1))))) s1
                else s1);
          s3 = (if has_key (heap s2 requestData) ''commandNum''
                then (let (tok, s') = command_token env s2
                      in set_field requestData ''commandNum'' (Str tok) s')
                else s2)
      in s3)"

text \<open>The block under \<open>if (!options.excludeDefaultValues)\<close>.\<close>

definition inject_defaults :: "environment \<Rightarrow> string \<Rightarrow> nat \<Rightarrow> state \<Rightarrow> state" where
  "inject_defaults env endPoint requestData s =
     (let endPointSplit = split endPoint CHR ''/'';
          s1 = set_field requestData ''module'' (at_index endPointSplit 0) s;
          s2 = set_field requestData ''action'' (at_index endPointSplit 1) s1;
          (t, s3) = timeStamp env s2;
          s4 = set_field requestData ''timeStamp'' (Num t) s3;
          s5 = set_field requestData ''mgd'' (Num (gameMode_value (mgd (session (gris s4))))) s4;
          (tok, s6) = command_token env s5
      in set_field requestData ''commandNum'' (Str tok) s6)"

text \<open>The statements of \<open>APIRequest\<close> that shape the object at \<open>requestData\<close>.\<close>

definition build_envelope ::
  "environment \<Rightarrow> string \<Rightarrow> nat \<Rightarrow> IAPIRequestOptions \<Rightarrow> state \<Rightarrow> state" where
  "build_envelope env endPoint requestData options s =
     (let s1 = restamp env requestData s
      in if \<not> excludeDefaultValues options
         then inject_defaults env endPoint requestData s1 else s1)"

text \<open>
  \<open>APIRequest(endPoint, requestData = {}, options = {})\<close>: \<open>requestData\<close> is the address
  of the caller's object; without one a new empty object is made.
\<close>

definition requestData_arg :: "nat option \<Rightarrow> state \<Rightarrow> nat \<times> state" where
  "requestData_arg requestData0 s =
     (case requestData0 of None \<Rightarrow> new_object [] s | Some a \<Rightarrow> (a, s))"

definition APIRequest ::
  "environment \<Rightarrow> string \<Rightarrow> nat option \<Rightarrow> IAPIRequestOptions \<Rightarrow> state \<Rightarrow>
   (error + js) \<times> state" where
  "APIRequest env endPoint requestData0 options s0 =
     (let (requestData, s) = requestData_arg requestData0 s0;
          signKey = (if useSpecialKey options then special_key (keychain (gris s))
                     else sessionKey (keychain (gris s)));
          s2 = build_envelope env endPoint requestData options s;
          (response, s3) = postRequest env endPoint signKey (Obj (heap s2 requestData)) s2
      in case response of
           Inl e \<Rightarrow> (Inl e, s3)
         | Inr r \<Rightarrow>
             (Inr r,
              if truthy (field (heap s3 requestData) ''commandNum'')
              then upd_session (\<lambda>x. x\<lparr>commandNum := commandNum x + 1\<rparr>) s3
              else s3))"

text \<open>
  \<open>APIMultiRequest(methods)\<close>: \<open>methods\<close> holds the addresses of the caller's records;
  \<open>map\<close> stamps each in turn and returns the same objects.
\<close>

fun stamp_methods :: "environment \<Rightarrow> nat list \<Rightarrow> state \<Rightarrow> state" where
  "stamp_methods env [] s = s"
| "stamp_methods env (m # ms) s =
     (let (t, s1) = timeStamp env s
      in stamp_methods env ms (set_field m ''timeStamp'' (Num t) s1))"

definition APIMultiRequest ::
  "environment \<Rightarrow> nat list \<Rightarrow> state \<Rightarrow> (error + js) \<times> state" where
  "APIMultiRequest env methods s =
     (let s1 = stamp_methods env methods s
      in postRequest env ''api'' (sessionKey (keychain (gris s1)))
           (Arr (map (\<lambda>m. Obj (heap s1 m)) methods)) s1)"

section \<open>Key exchange and login\<close>

text \<open>
  \<open>getLatestBundleVersion\<close> is typed \<open>Promise<string>\<close>: the GET and the reading of its
  answer are one step of the environment. The random \<open>rnd\<close> parameter of the URL is
  left out of the record of the lookup.
\<close>

definition getLatestBundleVersion ::
  "environment \<Rightarrow> int option \<Rightarrow> state \<Rightarrow> (error + string) \<times> state" where
  "getLatestBundleVersion env applicationId0 s =
     (let applicationId1 = (case applicationId0 of
                              None \<Rightarrow> applicationId (gris s)
                            | Some a \<Rightarrow> if a = 0 then applicationId (gris s) else a)
      in (lookup env (length (lookups s)), s\<lparr>lookups := lookups s @ [applicationId1]\<rparr>))"

definition getAssertation :: "Gris \<Rightarrow> error + string" where
  "getAssertation g =
     (case platformType g of
        iOS \<Rightarrow> Inr ''ewoJIlJhdGluZyI6IjAiLAoJIkRldGFpbCI6IlRoaXMgaXMgYSBpT1MgZGV2aWNlIgp9''
      | Android \<Rightarrow> Inl AssertationError)"

text \<open>
  The session's fields are typed (\<open>authToken: string\<close>, \<open>userId: number\<close>), and the
  source assigns to them what the server sent, unchecked. The model keeps the declared
  types: where the server's value has another type, \<open>doAuth\<close> and \<open>login\<close> end with
  \<open>IllTyped\<close>, which stands for a run that has left the declared types.
  The test of \<open>doAuth\<close> that both credentials are strings holds by their type.
\<close>

text \<open>
  The last two statements of \<open>doAuth\<close>: the token is stored, then
  \<open>Buffer.from(dummy_token, "base64")\<close> raises a TypeError on \<open>undefined\<close> and \<open>null\<close>.
\<close>

fun store_authkey ::
  "environment \<Rightarrow> Buffer \<Rightarrow> error + js \<Rightarrow> error + js \<Rightarrow> state \<Rightarrow> (error + unit) \<times> state" where
  "store_authkey env clientKey (Inl e) d s = (Inl e, s)"
| "store_authkey env clientKey (Inr (Str authorize_token)) (Inl e) s =
     (Inl e, upd_session (\<lambda>x. x\<lparr>authToken := authorize_token\<rparr>) s)"
| "store_authkey env clientKey (Inr (Str authorize_token)) (Inr (Str dummy_token)) s =
     (Inr (),
      upd_keychain (\<lambda>x. x\<lparr>sessionKey :=
          xor_buf (Inr clientKey) (Inr (Buffer_from_base64 env dummy_token))\<rparr>)
        (upd_session (\<lambda>x. x\<lparr>authToken := authorize_token\<rparr>) s))"
| "store_authkey env clientKey (Inr (Str authorize_token)) (Inr Undefined) s =
     (Inl TypeError, upd_session (\<lambda>x. x\<lparr>authToken := authorize_token\<rparr>) s)"
| "store_authkey env clientKey (Inr (Str authorize_token)) (Inr Null) s =
     (Inl TypeError, upd_session (\<lambda>x. x\<lparr>authToken := authorize_token\<rparr>) s)"
| "store_authkey env clientKey (Inr (Str authorize_token)) (Inr d) s =
     (Inl IllTyped, upd_session (\<lambda>x. x\<lparr>authToken := authorize_token\<rparr>) s)"
| "store_authkey env clientKey (Inr a) d s = (Inl IllTyped, s)"

text \<open>The last statements of \<open>login\<close>.\<close>

fun store_login :: "error + js \<Rightarrow> error + js \<Rightarrow> state \<Rightarrow> (error + int) \<times> state" where
  "store_login (Inl e) t s = (Inl e, s)"
| "store_login (Inr (Num user_id)) (Inl e) s =
     (Inl e, upd_session (\<lambda>x. x\<lparr>userId := user_id\<rparr>) s)"
| "store_login (Inr (Num user_id)) (Inr (Str authorize_token)) s =
     (Inr user_id,
      upd_session (\<lambda>x. x\<lparr>authToken := authorize_token\<rparr>)
        (upd_session (\<lambda>x. x\<lparr>userId := user_id\<rparr>) s))"
| "store_login (Inr (Num user_id)) (Inr t) s =
     (Inl IllTyped, upd_session (\<lambda>x. x\<lparr>userId := user_id\<rparr>) s)"
| "store_login (Inr u) t s = (Inl IllTyped, s)"

definition doAuth :: "environment \<Rightarrow> state \<Rightarrow> (error + unit) \<times> state" where
  "doAuth env s =
     (let (clientKey, s1) = crypto_randomBytes env 32 s;
          k = keychain (gris s1);
          s2 = upd_keychain (\<lambda>x. x\<lparr>sessionKey :=
                 xor_buf (Inr (xor_buf (Inl (applicationKey k)) (Inl (baseKey k)))) (Inr clientKey)\<rparr>) s1
      in case getAssertation (gris s2) of
           Inl e \<Rightarrow> (Inl e, s2)
         | Inr assertation \<Rightarrow>
             (case aes128cbcEncrypt env
                     (JSON_stringify env (Obj [(''1'', Str (loginKey k)), (''2'', Str (loginPasswd k)),
                                               (''3'', Str assertation)]))
                     (take 16 clientKey) (take 16 (drop 16 clientKey)) of
                Inl e \<Rightarrow> (Inl e, s2)
              | Inr auth_data \<Rightarrow>
                  (case publicEncrypt env (rsaPublicKey k) clientKey of
                     Inl e \<Rightarrow> (Inl e, s2)
                   | Inr encrypted \<Rightarrow>
                       (let (authKeyRequestData, s3) =
                              new_object [(''auth_data'', Str auth_data),
                                          (''dummy_token'', Str (toString_base64 env encrypted))] s2
                        in case APIRequest env ''login/authkey'' (Some authKeyRequestData)
                                  \<lparr>excludeDefaultValues = True, useSpecialKey = False\<rparr> s3 of
                             (Inl e, s4) \<Rightarrow> (Inl e, s4)
                           | (Inr authKeyResponseData, s4) \<Rightarrow>
                               (case get_prop authKeyResponseData ''response_data'' of
                                  Inl e \<Rightarrow> (Inl e, s4)
                                | Inr response_data \<Rightarrow>
                                    store_authkey env clientKey
                                      (get_prop response_data ''authorize_token'')
                                      (get_prop response_data ''dummy_token'') s4)))))"

definition login :: "environment \<Rightarrow> state \<Rightarrow> (error + int) \<times> state" where
  "login env s =
     (if length (loginKey (keychain (gris s))) \<noteq> 36 \<or>
         \<not> match_whole loginKey_pattern (loginKey (keychain (gris s)))
      then (Inl LoginKeyError, s)
      else if length (loginPasswd (keychain (gris s))) \<noteq> 128 \<or>
              \<not> match_prefix loginPasswd_pattern (loginPasswd (keychain (gris s)))
      then (Inl LoginPasswdError, s)
      else
        (case getLatestBundleVersion env None s of
           (Inl e, s1) \<Rightarrow> (Inl e, s1)
         | (Inr v, s1) \<Rightarrow>
             (case doAuth env (upd_session (\<lambda>x. x\<lparr>bundleVersion := v\<rparr>) s1) of
                (Inl e, s2) \<Rightarrow> (Inl e, s2)
              | (Inr u, s2) \<Rightarrow>
                  (let k = keychain (gris s2)
                   in case aes128cbcEncrypt env (loginKey k)
                             (take 16 (sessionKey k)) (take 16 (drop 16 (sessionKey k))) of
                        Inl e \<Rightarrow> (Inl e, s2)
                      | Inr login_key \<Rightarrow>
                          (case aes128cbcEncrypt env (loginPasswd k)
                                  (take 16 (sessionKey k)) (take 16 (drop 16 (sessionKey k))) of
                             Inl e \<Rightarrow> (Inl e, s2)
                           | Inr login_passwd \<Rightarrow>
                               (let (loginRequestData, s3) =
                                      new_object [(''login_key'', Str login_key),
                                                  (''login_passwd'', Str login_passwd)] s2
                                in case APIRequest env ''login/login'' (Some loginRequestData)
                                          \<lparr>excludeDefaultValues = True, useSpecialKey = False\<rparr> s3 of
                                     (Inl e, s4) \<Rightarrow> (Inl e, s4)
                                   | (Inr loginResponseData, s4) \<Rightarrow>
                                       (case get_prop loginResponseData ''response_data'' of
                                          Inl e \<Rightarrow> (Inl e, s4)
                                        | Inr response_data \<Rightarrow>
                                            store_login (get_prop response_data ''user_id'')
                                              (get_prop response_data ''authorize_token'') s4)))))))"

section \<open>A client's lifetime\<close>

text \<open>
  What a caller does with a client, one operation after the other; an operation that
  raises leaves the state it reached, and the caller goes on.
\<close>

datatype operation =
    Call_APIRequest string "nat option" IAPIRequestOptions
  | Call_APIMultiRequest "nat list"
  | Call_login
  | Set_gameMode gameMode
  | Make_object object

fun perform :: "environment \<Rightarrow> operation \<Rightarrow> state \<Rightarrow> state" where
  "perform env (Call_APIRequest endPoint requestData options) s =
     snd (APIRequest env endPoint requestData options s)"
| "perform env (Call_APIMultiRequest methods) s = snd (APIMultiRequest env methods s)"
| "perform env Call_login s = snd (login env s)"
| "perform env (Set_gameMode m) s = upd_session (\<lambda>x. x\<lparr>mgd := m\<rparr>) s"
| "perform env (Make_object ps) s = snd (new_object ps s)"

fun run :: "environment \<Rightarrow> operation list \<Rightarrow> state \<Rightarrow> state" where
  "run env [] s = s"
| "run env (op # ops) s = run env ops (perform env op s)"

text \<open>The nonces of the transmitted requests, in the order of transmission.\<close>

definition nonces :: "state \<Rightarrow> int list" where
  "nonces s = map (\<lambda>q. auth_nonce (req_authorize q)) (sent s)"

text \<open>The state of a client just constructed.\<close>

definition new_state :: "Gris \<Rightarrow> state" where
  "new_state g =
     \<lparr> gris = g, heap = (\<lambda>a. []), next_addr = 0, ticks = 0, draws = 0, sent = [],
       lookups = [] \<rparr>"

section \<open>Parts of the functions, named for the statements\<close>

text \<open>The state in which an attempt transmits, and the transmitted request.\<close>

definition attempt_request ::
  "environment \<Rightarrow> string \<Rightarrow> js \<Rightarrow> string \<Rightarrow> (string \<times> string) list \<Rightarrow> state \<Rightarrow> request" where
  "attempt_request env endPoint formData requestBody headers0 s =
     \<lparr> url = HOST (gris s) @ ''/main.php/'' @ endPoint,
       headers = AList.update ''Authorize''
                   (snd (fst (getAuthorizeString env (upd_session (\<lambda>x. x\<lparr>nonce := nonce x + 1\<rparr>) s))))
                   headers0,
       req_authorize = fst (fst (getAuthorizeString env (upd_session (\<lambda>x. x\<lparr>nonce := nonce x + 1\<rparr>) s))),
       body = (if formData \<noteq> Undefined then Some requestBody else None) \<rparr>"

definition attempt_sent :: 
  "environment \<Rightarrow> string \<Rightarrow> js \<Rightarrow> string \<Rightarrow> (string \<times> string) list \<Rightarrow> state \<Rightarrow> state" where
  "attempt_sent env endPoint formData requestBody headers0 s =
     (upd_session (\<lambda>x. x\<lparr>nonce := nonce x + 1\<rparr>) s)
       \<lparr>ticks := ticks s + 1,
        sent := sent s @ [attempt_request env endPoint formData requestBody headers0 s]\<rparr>"

text \<open>The body and the headers that \<open>postRequest\<close> computes before its loop.\<close>

definition call_body :: "environment \<Rightarrow> js \<Rightarrow> state \<Rightarrow> string" where
  "call_body env formData s = snd (fst (createMultipart env (JSON_stringify env formData) s))"

definition call_headers :: "environment \<Rightarrow> Buffer \<Rightarrow> js \<Rightarrow> state \<Rightarrow> (string \<times> string) list" where
  "call_headers env signKey formData s =
     (let headers0 = getHeaders (gris s);
          headers1 = (if formData \<noteq> Undefined
                      then AList.update ''Content-Type''
                             (fst (fst (createMultipart env (JSON_stringify env formData) s)))
                             (AList.update ''Content-Length''
                                (Number_toString (int (length (call_body env formData s))))
                               (AList.update ''X-Message-Code''
                                  (hmacSha1 env (JSON_stringify env formData) signKey) headers0))
                      else headers0)
      in if userId (session (gris s)) \<noteq> 0
         then AList.update ''User-ID'' (Number_toString (userId (session (gris s)))) headers1
         else headers1)"

text \<open>
  A response that \<open>postRequest\<close> accepts, with the payload it returns: no maintenance
  flag, and a body whose \<open>response_data\<close> is truthy and has no \<open>error_code\<close> 407.
\<close>

definition is_success :: "response \<Rightarrow> js \<Rightarrow> bool" where
  "is_success r payload =
     (\<not> header_truthy (header r) ''maintenance'' \<and> text_json r = Some payload \<and>
      (case get_prop payload ''response_data'' of
         Inl e \<Rightarrow> False
       | Inr response_data \<Rightarrow>
           truthy response_data \<and> get_prop response_data ''error_code'' \<noteq> Inr (Num 407)))"

text \<open>The state in which \<open>APIRequest\<close> calls \<open>postRequest\<close>, and the call.\<close>

definition envelope_state ::
  "environment \<Rightarrow> string \<Rightarrow> nat option \<Rightarrow> IAPIRequestOptions \<Rightarrow> state \<Rightarrow> state" where
  "envelope_state env endPoint requestData0 options s0 =
     build_envelope env endPoint (fst (requestData_arg requestData0 s0)) options
       (snd (requestData_arg requestData0 s0))"

definition envelope :: 
  "environment \<Rightarrow> string \<Rightarrow> nat option \<Rightarrow> IAPIRequestOptions \<Rightarrow> state \<Rightarrow> object" where
  "envelope env endPoint requestData0 options s0 =
     heap (envelope_state env endPoint requestData0 options s0) (fst (requestData_arg requestData0 s0))"

definition envelope_post ::
  "environment \<Rightarrow> string \<Rightarrow> nat option \<Rightarrow> IAPIRequestOptions \<Rightarrow> state \<Rightarrow> (error + js) \<times> state" where
  "envelope_post env endPoint requestData0 options s0 =
     postRequest env endPoint
       (if useSpecialKey options
        then special_key (keychain (gris (snd (requestData_arg requestData0 s0))))
        else sessionKey (keychain (gris (snd (requestData_arg requestData0 s0)))))
       (Obj (envelope env endPoint requestData0 options s0))
       (envelope_state env endPoint requestData0 options s0)"

text \<open>The command token made at the \<open>k\<close>-th reading of the clock.\<close>

definition token_at :: "environment \<Rightarrow> state \<Rightarrow> nat \<Rightarrow> js" where
  "token_at env s k =
     Str (loginKey (keychain (gris s)) @ ''.'' @ Number_toString (clock env k) @ ''.'' @
          Number_toString (commandNum (session (gris s))))"

section \<open>Invariants used in the proofs\<close>

text \<open>What the loop of \<open>postRequest\<close> leaves unchanged.\<close>

definition frame :: "state \<Rightarrow> state \<Rightarrow> bool" where
  "frame s s' =
     (heap s' = heap s \<and> next_addr s' = next_addr s \<and> draws s' = draws s \<and>
      lookups s' = lookups s \<and>
      keychain (gris s') = keychain (gris s) \<and> HOST (gris s') = HOST (gris s) \<and>
      osVersion (gris s') = osVersion (gris s) \<and> platformType (gris s') = platformType (gris s) \<and>
      applicationId (gris s') = applicationId (gris s) \<and>
      authToken (session (gris s')) = authToken (session (gris s)) \<and>
      userId (session (gris s')) = userId (session (gris s)) \<and>
      mgd (session (gris s')) = mgd (session (gris s)) \<and>
      commandNum (session (gris s')) = commandNum (session (gris s)) \<and>
      bundleVersion (session (gris s')) = bundleVersion (session (gris s)))"

text \<open>What the requests of one call have in common, and how their nonces lie.\<close>

definition loop_sends ::
  "string \<Rightarrow> string option \<Rightarrow> nat \<Rightarrow> (string \<times> string) list \<Rightarrow> state \<Rightarrow> state \<Rightarrow> bool" where
  "loop_sends u b a h s s' =
     (\<exists>reqs. sent s' = sent s @ reqs \<and> length reqs \<le> 6 - a \<and>
        (\<forall>q \<in> set reqs. url q = u \<and> body q = b \<and>
           (\<forall>k. k \<noteq> ''Authorize'' \<longrightarrow> map_of (headers q) k = map_of h k) \<and>
           nonce (session (gris s)) < auth_nonce (req_authorize q) \<and>
           auth_nonce (req_authorize q) \<le> nonce (session (gris s'))) \<and>
        sorted_wrt (<) (map (\<lambda>q. auth_nonce (req_authorize q)) reqs) \<and>
        nonce (session (gris s)) \<le> nonce (session (gris s')))"

text \<open>
  From one state to a later one: the requests transmitted in between carry strictly
  increasing nonces, above the nonce of the first state and not above that of the second.
\<close>

definition nonce_step :: "state \<Rightarrow> state \<Rightarrow> bool" where
  "nonce_step s s' =
     (\<exists>reqs. sent s' = sent s @ reqs \<and>
        list_all (\<lambda>q. nonce (session (gris s)) < auth_nonce (req_authorize q) \<and>
                      auth_nonce (req_authorize q) \<le> nonce (session (gris s'))) reqs \<and>
        sorted_wrt (<) (map (\<lambda>q. auth_nonce (req_authorize q)) reqs) \<and>
        nonce (session (gris s)) \<le> nonce (session (gris s')))"

text \<open>
  The nonces transmitted so far are strictly increasing, none above the session's nonce.
\<close>

definition nonce_inv :: "state \<Rightarrow> bool" where
  "nonce_inv s =
     (sorted_wrt (<) (nonces s) \<and> list_all (\<lambda>n. n \<le> nonce (session (gris s))) (nonces s))"

section \<open>Example inputs\<close>

text \<open>
  A transport that answers the POSTs as listed and rejects the later ones, a clock that
  advances by one second at each reading, a version lookup that fails, and library
  functions with fixed results.
\<close>

definition script :: "outcome list \<Rightarrow> nat \<Rightarrow> outcome" where
  "script xs k = (if k < length xs then xs ! k else Rejected None ''closed'')"

definition example_env :: "(nat \<Rightarrow> outcome) \<Rightarrow> environment" where
  "example_env n =
     \<lparr> clock = (\<lambda>k. 1600000000 + int k),
       net = n,
       randomBytes = (\<lambda>k i. 0),
       createHmac_sha1_hex = (\<lambda>key data. ''00''),
       JSON_stringify = (\<lambda>v. ''{}''),
       querystring_stringify = (\<lambda>a. ''nonce='' @ Number_toString (auth_nonce a)),
       lookup = (\<lambda>k. Inl (LookupError ''offline'')),
       cipher_aes_128_cbc = (\<lambda>key iv data. []),
       publicEncrypt = (\<lambda>key data. Inr []),
       toString_base64 = (\<lambda>b. []),
       Buffer_from_base64 = (\<lambda>t. []) \<rparr>"

definition example_payload :: js where
  "example_payload =
     Obj [(''response_data'', Obj [(''ok'', Bool True)]), (''release_info'', Arr []),
          (''status_code'', Num 200)]"

definition ok_response :: response where
  "ok_response = \<lparr> header = [], text_json = Some example_payload \<rparr>"

definition skew_response :: response where
  "skew_response = \<lparr> header = [(''server-version'', ''42.0'')], text_json = Some example_payload \<rparr>"

definition bare_response :: response where
  "bare_response =
     \<lparr> header = [], text_json = Some (Obj [(''release_info'', Arr []), (''status_code'', Num 200)]) \<rparr>"

definition timeout :: outcome where
  "timeout = Rejected None ''timeout''"

definition env_ok :: environment where
  "env_ok = example_env (script [Resolved ok_response])"

definition env_4_fail_ok :: environment where
  "env_4_fail_ok = example_env (script [timeout, timeout, timeout, timeout, Resolved ok_response])"

definition env_5_fail :: environment where
  "env_5_fail = example_env (script [timeout, timeout, timeout, timeout, timeout, Resolved ok_response])"

definition env_skew_ok :: environment where
  "env_skew_ok = example_env (script [Resolved skew_response, Resolved ok_response])"

definition env_skew_4_fail :: environment where
  "env_skew_4_fail = example_env (script [Resolved skew_response, timeout, timeout, timeout, timeout, Resolved ok_response])"

definition env_bare :: environment where
  "env_bare = example_env (script [Resolved bare_response])"

definition env_lifetime :: environment where
  "env_lifetime =
     example_env (script [Resolved skew_response, timeout, Resolved ok_response, Resolved ok_response])"

definition plain_options :: IAPIRequestOptions where
  "plain_options = \<lparr> excludeDefaultValues = False, useSpecialKey = False \<rparr>"

definition exclude_options :: IAPIRequestOptions where
  "exclude_options = \<lparr> excludeDefaultValues = True, useSpecialKey = False \<rparr>"

definition example_ops :: "operation list" where
  "example_ops =
     [Call_APIRequest ''user/userInfo'' None plain_options,
      Make_object [(''module'', Str ''live''), (''action'', Str ''schedule'')],
      Call_APIMultiRequest [1]]"

definition caller_state :: state where
  "caller_state =
     snd (new_object [(''module'', Str ''mine''), (''commandNum'', Null), (''extra'', Num 7)]
            (new_state initial_Gris))"

definition example_options :: IConfig where
  "example_options =
     \<lparr> opt_host = None, opt_gameMode = None, opt_platformType = None, opt_applicationId = None,
       opt_bundleVersion = None, opt_clientVersion = None, opt_osVersion = None,
       opt_loginKey = Some ''3fa85f64-5717-4562-b3fc-2c963f66afa6'',
       opt_loginPasswd = Some (replicate 128 CHR ''G''),
       opt_publicKey = replicate 250 CHR ''k'',
       opt_baseKey = replicate 32 CHR ''b'',
       opt_applicationKey = replicate 32 CHR ''a'' \<rparr>"

definition example_client :: Gris where
  "example_client = (case constructor example_options of Inl e \<Rightarrow> initial_Gris | Inr g \<Rightarrow> g)"

definition dash_passwd_client :: Gris where
  "dash_passwd_client =
     example_client\<lparr>keychain := (keychain example_client)
       \<lparr>loginPasswd := replicate 127 CHR ''A'' @ ''-''\<rparr>\<rparr>"

definition short_passwd_options :: IConfig where
  "short_passwd_options =
     example_options\<lparr>opt_loginKey := Some ''not-a-uuid'', opt_loginPasswd := Some ''0123ABCD''\<rparr>"

definition short_key_options :: IConfig where
  "short_key_options = example_options\<lparr>opt_applicationKey := ''too short''\<rparr>"

definition short_public_key_options :: IConfig where
  "short_public_key_options = example_options\<lparr>opt_publicKey := ''-----BEGIN PUBLIC KEY-----''\<rparr>"

section \<open>Properties of the crypto primitives\<close>

lemma xor_loop_eq:
  "minLength \<le> length a \<Longrightarrow> minLength \<le> length b \<Longrightarrow> i \<le> minLength \<Longrightarrow>
   xor_loop a b minLength i result =
     result @ map (\<lambda>k. (a ! k) XOR (b ! k)) [i ..< minLength]"
proof (induction a b minLength i result rule: xor_loop.induct)
  case (1 a b minLength i result)
  show ?case
  proof (cases "i < minLength")
    case True
    then have "xor_loop a b minLength i result =
               xor_loop a b minLength (i + 1) (result @ [(a ! i) XOR (b ! i)])"
      by simp
    also have "\<dots> = (result @ [(a ! i) XOR (b ! i)]) @
                     map (\<lambda>k. (a ! k) XOR (b ! k)) [i + 1 ..< minLength]"
      using "1.IH" [OF True] "1.prems" True by simp
    also have "\<dots> = result @ map (\<lambda>k. (a ! k) XOR (b ! k)) [i ..< minLength]"
      using True by (simp add: upt_conv_Cons)
    finally show ?thesis .
  next
    case False
    with "1.prems" show ?thesis by simp
  qed
qed

lemma xor_buf_Inr:
  "xor_buf (Inr a) (Inr b) = map (\<lambda>k. (a ! k) XOR (b ! k)) [0 ..< min (length a) (length b)]"
proof -
  have m: "(if length a > length b then length b else length a) = min (length a) (length b)"
    by simp
  show ?thesis
    unfolding xor_buf_def toBuffer_def Let_def m
    by (simp add: xor_loop_eq del: xor_loop.simps)
qed

text \<open>
  C7. For all byte sequences \<open>a\<close> and \<open>b\<close>, \<open>xor(a, b)\<close> has length
  \<open>min(len(a), len(b))\<close>; and when the lengths are equal, \<open>xor(xor(a, b), b)\<close> is \<open>a\<close>.
\<close>

theorem xor_length_involution:
  "length (xor_buf (Inr a) (Inr b)) = min (length a) (length b) \<and>
   (length a = length b \<longrightarrow> xor_buf (Inr (xor_buf (Inr a) (Inr b))) (Inr b) = a)"
proof
  show "length (xor_buf (Inr a) (Inr b)) = min (length a) (length b)"
    by (simp add: xor_buf_Inr)
next
  show "length a = length b \<longrightarrow> xor_buf (Inr (xor_buf (Inr a) (Inr b))) (Inr b) = a"
  proof
    assume eq: "length a = length b"
    have "xor_buf (Inr (xor_buf (Inr a) (Inr b))) (Inr b) =
          map (\<lambda>k. ((a ! k) XOR (b ! k)) XOR (b ! k)) [0 ..< length a]"
      using eq by (simp add: xor_buf_Inr)
    also have "\<dots> = map (\<lambda>k. a ! k) [0 ..< length a]"
      by (simp add: xor.assoc)
    also have "\<dots> = a"
      by (rule map_nth)
    finally show "xor_buf (Inr (xor_buf (Inr a) (Inr b))) (Inr b) = a" .
  qed
qed

theorem xor_length_involution_witness:
  "length [1, 2, 3 :: byte] = length [255, 16, 3 :: byte] \<and>
   length (xor_buf (Inr [1, 2, 3]) (Inr [255, 16, 3])) = 3 \<and>
   xor_buf (Inr (xor_buf (Inr [1, 2, 3]) (Inr [255, 16, 3]))) (Inr [255, 16, 3]) = [1, 2, 3]"
  using xor_length_involution [of "[1, 2, 3]" "[255, 16, 3]"] by simp

section \<open>The retry loop\<close>

lemma frame_refl: "frame s s"
  by (simp add: frame_def)

lemma frame_trans: "frame s s1 \<Longrightarrow> frame s1 s2 \<Longrightarrow> frame s s2"
  by (simp add: frame_def)

lemma upd_session_simps [simp]:
  "heap (upd_session f s) = heap s"
  "next_addr (upd_session f s) = next_addr s"
  "ticks (upd_session f s) = ticks s"
  "draws (upd_session f s) = draws s"
  "sent (upd_session f s) = sent s"
  "lookups (upd_session f s) = lookups s"
  "session (gris (upd_session f s)) = f (session (gris s))"
  "keychain (gris (upd_session f s)) = keychain (gris s)"
  "HOST (gris (upd_session f s)) = HOST (gris s)"
  "osVersion (gris (upd_session f s)) = osVersion (gris s)"
  "platformType (gris (upd_session f s)) = platformType (gris s)"
  "applicationId (gris (upd_session f s)) = applicationId (gris s)"
  by (simp_all add: upd_session_def)

lemma getAuthorizeString_snd [simp]:
  "snd (getAuthorizeString env s) = s\<lparr>ticks := ticks s + 1\<rparr>"
  by (simp add: getAuthorizeString_def timeStamp_def Let_def)

lemma getAuthorizeString_nonce [simp]:
  "auth_nonce (fst (fst (getAuthorizeString env s))) = nonce (session (gris s))"
  by (simp add: getAuthorizeString_def timeStamp_def Let_def)

lemma attempt_body_cases:
  assumes "attempt_body env endPoint formData requestBody attempt headers0 response s = (fl, headers1, response1, s1)"
  shows "headers1 = headers (attempt_request env endPoint formData requestBody headers0 s) \<and>
         (s1 = attempt_sent env endPoint formData requestBody headers0 s \<or>
          (\<exists>v. fl = Continue \<and> s1 = upd_session (\<lambda>x. x\<lparr>nonce := nonce x + 1\<rparr>)
                   (upd_session (\<lambda>x. x\<lparr>clientVersion := v\<rparr>)
                      (attempt_sent env endPoint formData requestBody headers0 s))))"
  using assms
  unfolding attempt_body_def attempt_request_def attempt_sent_def Let_def
  by (auto simp: case_prod_beta split: outcome.splits option.splits if_splits)

lemma attempt_body_frame:
  "attempt_body env endPoint formData requestBody attempt headers0 response s = (fl, headers1, response1, s1)
   \<Longrightarrow> frame s s1"
  by (drule attempt_body_cases) (auto simp: frame_def attempt_sent_def)

lemma postRequest_loop_exit:
  "5 < attempt \<Longrightarrow>
   postRequest_loop env endPoint formData requestBody attempt headers0 response s = (Inr response, s)"
  by (simp add: postRequest_loop.simps)

lemma postRequest_loop_step:
  "attempt \<le> 5 \<Longrightarrow>
   attempt_body env endPoint formData requestBody attempt headers0 response s = (fl, headers1, response1, s1) \<Longrightarrow>
   postRequest_loop env endPoint formData requestBody attempt headers0 response s =
     (case fl of
        Throw e \<Rightarrow> (Inl e, s1)
      | Continue \<Rightarrow> postRequest_loop env endPoint formData requestBody (attempt + 1) headers1 response1 s1
      | Break \<Rightarrow> (Inr response1, s1))"
  by (simp add: postRequest_loop.simps [of _ _ _ _ attempt] split: flow.splits)

text \<open>An invariant rule for the loop.\<close>

lemma postRequest_loop_rule:
  assumes run: "postRequest_loop env endPoint formData requestBody attempt headers0 response s = (res, s')"
    and stop: "\<And>a h s. 5 < a \<Longrightarrow> Q a h s s"
    and last: "\<And>a h r s fl h1 r1 s1. a \<le> 5 \<Longrightarrow>
                 attempt_body env endPoint formData requestBody a h r s = (fl, h1, r1, s1) \<Longrightarrow>
                 fl \<noteq> Continue \<Longrightarrow> Q a h s s1"
    and step: "\<And>a h r s h1 r1 s1 s2. a \<le> 5 \<Longrightarrow>
                 attempt_body env endPoint formData requestBody a h r s = (Continue, h1, r1, s1) \<Longrightarrow>
                 Q (a + 1) h1 s1 s2 \<Longrightarrow> Q a h s s2"
  shows "Q attempt headers0 s s'"
  using run stop last step
proof (induction env endPoint formData requestBody attempt headers0 response s rule: postRequest_loop.induct)
  case (1 env endPoint formData requestBody attempt headers0 response s)
  show ?case
  proof (cases "attempt \<le> 5")
    case False
    with "1.prems" have "s' = s" by (simp add: postRequest_loop_exit)
    with False show ?thesis by (simp add: "1.prems"(2))
  next
    case True
    obtain fl headers1 response1 s1 where
      b: "attempt_body env endPoint formData requestBody attempt headers0 response s = (fl, headers1, response1, s1)"
      by (metis prod_cases4)
    note unfold = postRequest_loop_step [OF True b]
    show ?thesis
    proof (cases "fl = Continue")
      case False
      with "1.prems"(1) unfold have "s1 = s'" by (cases fl) auto
      with "1.prems"(3) [OF True b False] show ?thesis by simp
    next
      case c: True
      with "1.prems"(1) unfold have
        r: "postRequest_loop env endPoint formData requestBody (attempt + 1) headers1 response1 s1 = (res, s')"
        by simp
      have "Q (attempt + 1) headers1 s1 s'"
        using "1.IH" [OF True b [symmetric] _ _ _ r] c "1.prems"(2,3,4) by blast
      with "1.prems"(4) [OF True] b c show ?thesis by blast
    qed
  qed
qed

lemma postRequest_loop_frame:
  assumes "postRequest_loop env endPoint formData requestBody attempt headers0 response s = (res, s')"
  shows "frame s s'"
proof (rule postRequest_loop_rule [OF assms, where Q = "\<lambda>a h s s'. frame s s'"])
  show "\<And>s. frame s s" by (rule frame_refl)
next
  show "\<And>a h r s fl h1 r1 s1.
       attempt_body env endPoint formData requestBody a h r s = (fl, h1, r1, s1) \<Longrightarrow> frame s s1"
    by (rule attempt_body_frame)
next
  show "\<And>a h r s h1 r1 s1 s2.
       attempt_body env endPoint formData requestBody a h r s = (Continue, h1, r1, s1) \<Longrightarrow>
       frame s1 s2 \<Longrightarrow> frame s s2"
    by (blast intro: frame_trans attempt_body_frame)
qed

lemma attempt_request_simps [simp]:
  "url (attempt_request env endPoint formData requestBody headers0 s) =
     HOST (gris s) @ ''/main.php/'' @ endPoint"
  "body (attempt_request env endPoint formData requestBody headers0 s) =
     (if formData \<noteq> Undefined then Some requestBody else None)"
  "auth_nonce (req_authorize (attempt_request env endPoint formData requestBody headers0 s)) =
     nonce (session (gris s)) + 1"
  "k \<noteq> ''Authorize'' \<Longrightarrow>
     map_of (headers (attempt_request env endPoint formData requestBody headers0 s)) k = map_of headers0 k"
  by (simp_all add: attempt_request_def update_conv')

lemma attempt_body_sent:
  assumes "attempt_body env endPoint formData requestBody attempt headers0 response s = (fl, headers1, response1, s1)"
  shows "sent s1 = sent s @ [attempt_request env endPoint formData requestBody headers0 s]"
  using attempt_body_cases [OF assms] by (auto simp: attempt_sent_def)

lemma attempt_body_headers:
  assumes "attempt_body env endPoint formData requestBody attempt headers0 response s = (fl, headers1, response1, s1)"
  shows "headers1 = headers (attempt_request env endPoint formData requestBody headers0 s)"
  using attempt_body_cases [OF assms] by simp

lemma attempt_body_nonce:
  assumes "attempt_body env endPoint formData requestBody attempt headers0 response s = (fl, headers1, response1, s1)"
  shows "nonce (session (gris s1)) = nonce (session (gris s)) + 1 \<or>
         nonce (session (gris s1)) = nonce (session (gris s)) + 2"
  using attempt_body_cases [OF assms] by (auto simp: attempt_sent_def)

lemma loop_sends_stop: "loop_sends u b a h s s"
  by (simp add: loop_sends_def)

lemma loop_sends_one:
  assumes "attempt_body env endPoint formData requestBody a h r s = (fl, h1, r1, s1)" and "a \<le> 5"
  shows "loop_sends (HOST (gris s) @ ''/main.php/'' @ endPoint)
           (if formData \<noteq> Undefined then Some requestBody else None) a h s s1"
  unfolding loop_sends_def
  apply (rule exI [of _ "[attempt_request env endPoint formData requestBody h s]"])
  using attempt_body_sent [OF assms(1)] attempt_body_nonce [OF assms(1)] assms(2)
  by auto

lemma loop_sends_step:
  assumes b: "attempt_body env endPoint formData requestBody a h r s = (fl, h1, r1, s1)" and a: "a \<le> 5"
    and rest: "loop_sends (HOST (gris s) @ ''/main.php/'' @ endPoint)
           (if formData \<noteq> Undefined then Some requestBody else None) (a + 1) h1 s1 s2"
  shows "loop_sends (HOST (gris s) @ ''/main.php/'' @ endPoint)
           (if formData \<noteq> Undefined then Some requestBody else None) a h s s2"
proof -
  let ?q = "attempt_request env endPoint formData requestBody h s"
  from rest obtain reqs where
    r1: "sent s2 = sent s1 @ reqs" and r2: "length reqs \<le> 6 - (a + 1)" and
    r3: "\<forall>q \<in> set reqs. url q = HOST (gris s) @ ''/main.php/'' @ endPoint \<and>
           body q = (if formData \<noteq> Undefined then Some requestBody else None) \<and>
           (\<forall>k. k \<noteq> ''Authorize'' \<longrightarrow> map_of (headers q) k = map_of h1 k) \<and>
           nonce (session (gris s1)) < auth_nonce (req_authorize q) \<and>
           auth_nonce (req_authorize q) \<le> nonce (session (gris s2))" and
    r4: "sorted_wrt (<) (map (\<lambda>q. auth_nonce (req_authorize q)) reqs)" and
    r5: "nonce (session (gris s1)) \<le> nonce (session (gris s2))"
    unfolding loop_sends_def by blast
  have h1: "h1 = headers ?q" using b by (rule attempt_body_headers)
  have n: "nonce (session (gris s)) + 1 \<le> nonce (session (gris s1))"
    using attempt_body_nonce [OF b] by auto
  have s: "sent s2 = sent s @ (?q # reqs)"
    using r1 attempt_body_sent [OF b] by simp
  have l: "length (?q # reqs) \<le> 6 - a" using r2 a by simp
  have p: "\<forall>q \<in> set (?q # reqs). url q = HOST (gris s) @ ''/main.php/'' @ endPoint \<and>
           body q = (if formData \<noteq> Undefined then Some requestBody else None) \<and>
           (\<forall>k. k \<noteq> ''Authorize'' \<longrightarrow> map_of (headers q) k = map_of h k) \<and>
           nonce (session (gris s)) < auth_nonce (req_authorize q) \<and>
           auth_nonce (req_authorize q) \<le> nonce (session (gris s2))"
    using r3 r5 n h1 by auto
  have o: "sorted_wrt (<) (map (\<lambda>q. auth_nonce (req_authorize q)) (?q # reqs))"
    using r3 r4 n by auto
  have m: "nonce (session (gris s)) \<le> nonce (session (gris s2))" using n r5 by simp
  show ?thesis
    unfolding loop_sends_def using s l p o m by blast
qed

lemma postRequest_loop_sends:
  assumes "postRequest_loop env endPoint formData requestBody attempt headers0 response s = (res, s')"
  shows "loop_sends (HOST (gris s) @ ''/main.php/'' @ endPoint)
           (if formData \<noteq> Undefined then Some requestBody else None) attempt headers0 s s'"
proof -
  define u where "u = HOST (gris s) @ ''/main.php/'' @ endPoint"
  define b where "b = (if formData \<noteq> Undefined then Some requestBody else None)"
  have "HOST (gris s) = HOST (gris s) \<longrightarrow>
        loop_sends (HOST (gris s) @ ''/main.php/'' @ endPoint) b attempt headers0 s s'"
  proof (rule postRequest_loop_rule [OF assms,
           where Q = "\<lambda>a h t t'. HOST (gris t) = HOST (gris s) \<longrightarrow>
                        loop_sends (HOST (gris s) @ ''/main.php/'' @ endPoint) b a h t t'"])
    show "\<And>a h t. 5 < a \<Longrightarrow> HOST (gris t) = HOST (gris s) \<longrightarrow>
            loop_sends (HOST (gris s) @ ''/main.php/'' @ endPoint) b a h t t"
      by (simp add: loop_sends_stop)
  next
    fix a h r t fl h1 r1 t1
    assume "a \<le> 5" "attempt_body env endPoint formData requestBody a h r t = (fl, h1, r1, t1)"
    then show "HOST (gris t) = HOST (gris s) \<longrightarrow>
            loop_sends (HOST (gris s) @ ''/main.php/'' @ endPoint) b a h t t1"
      using loop_sends_one [of env endPoint formData requestBody a h r t fl h1 r1 t1]
      by (auto simp: b_def)
  next
    fix a h r t h1 r1 t1 t2
    assume a: "a \<le> 5"
      and b: "attempt_body env endPoint formData requestBody a h r t = (Continue, h1, r1, t1)"
      and rest: "HOST (gris t1) = HOST (gris s) \<longrightarrow>
            loop_sends (HOST (gris s) @ ''/main.php/'' @ endPoint) b (a + 1) h1 t1 t2"
    have "HOST (gris t1) = HOST (gris t)"
      using attempt_body_frame [OF b] by (simp add: frame_def)
    then show "HOST (gris t) = HOST (gris s) \<longrightarrow>
            loop_sends (HOST (gris s) @ ''/main.php/'' @ endPoint) b a h t t2"
      using loop_sends_step [OF b a, of t2] rest by (auto simp: b_def)
  qed
  then show ?thesis by (simp add: b_def)
qed

lemma createMultipart_snd [simp]:
  "snd (createMultipart env requestBody s) = s\<lparr>draws := draws s + 1\<rparr>"
  by (simp add: createMultipart_def crypto_randomBytes_def Let_def)

lemma postRequest_eq:
  "postRequest env endPoint signKey formData s =
     (case postRequest_loop env endPoint formData (call_body env formData s) 1
             (call_headers env signKey formData s) None (s\<lparr>draws := draws s + 1\<rparr>) of
        (Inl e, s2) \<Rightarrow> (Inl e, s2)
      | (Inr response, s2) \<Rightarrow> (read_response response, s2))"
proof -
  obtain contentType requestBody s1 where
    c: "createMultipart env (JSON_stringify env formData) s = ((contentType, requestBody), s1)"
    by (metis prod.exhaust)
  have s1: "s1 = s\<lparr>draws := draws s + 1\<rparr>"
    using createMultipart_snd [of env "JSON_stringify env formData" s] c by simp
  have g: "gris s1 = gris s" by (simp add: s1)
  show ?thesis
    unfolding postRequest_def call_body_def call_headers_def Let_def c
    by (simp add: s1)
qed

lemma call_headers_Client_Version:
  "map_of (call_headers env signKey formData s) ''Client-Version'' =
     Some (clientVersion (session (gris s)))"
  by (simp add: call_headers_def getHeaders_def Let_def update_conv')

lemma call_headers_X_Message_Code:
  "map_of (call_headers env signKey formData s) ''X-Message-Code'' =
     (if formData \<noteq> Undefined then Some (hmacSha1 env (JSON_stringify env formData) signKey)
      else None)"
  by (simp add: call_headers_def getHeaders_def Let_def update_conv')

lemma postRequest_sends:
  assumes "postRequest env endPoint signKey formData s = (res, s')"
  shows "loop_sends (HOST (gris s) @ ''/main.php/'' @ endPoint)
           (if formData \<noteq> Undefined then Some (call_body env formData s) else None) 1
           (call_headers env signKey formData s) s s'"
proof -
  obtain r where
    l: "postRequest_loop env endPoint formData (call_body env formData s) 1
             (call_headers env signKey formData s) None (s\<lparr>draws := draws s + 1\<rparr>) = (r, s')"
    using assms unfolding postRequest_eq by (auto split: prod.splits sum.splits)
  from postRequest_loop_sends [OF l] show ?thesis
    by (simp add: loop_sends_def)
qed

lemma postRequest_frame:
  assumes "postRequest env endPoint signKey formData s = (res, s')"
  shows "frame (s\<lparr>draws := draws s + 1\<rparr>) s'"
proof -
  obtain r where
    l: "postRequest_loop env endPoint formData (call_body env formData s) 1
             (call_headers env signKey formData s) None (s\<lparr>draws := draws s + 1\<rparr>) = (r, s')"
    using assms unfolding postRequest_eq by (auto split: prod.splits sum.splits)
  from postRequest_loop_frame [OF l] show ?thesis .
qed

lemma attempt_sent_simps [simp]:
  "sent (attempt_sent env endPoint formData requestBody headers0 s) =
     sent s @ [attempt_request env endPoint formData requestBody headers0 s]"
  "session (gris (attempt_sent env endPoint formData requestBody headers0 s)) =
     (session (gris s))\<lparr>nonce := nonce (session (gris s)) + 1\<rparr>"
  by (simp_all add: attempt_sent_def)

lemma attempt_body_rejected:
  assumes "net env (length (sent s)) = Rejected st m" and "st \<noteq> Some 423"
  shows "attempt_body env endPoint formData requestBody attempt headers0 response s =
           ((if attempt = 5 then Throw (MaxAttempts m) else Continue),
            headers (attempt_request env endPoint formData requestBody headers0 s), response,
            attempt_sent env endPoint formData requestBody headers0 s)"
  using assms
  unfolding attempt_body_def attempt_request_def attempt_sent_def Let_def
  by (simp add: case_prod_beta)

lemma attempt_body_skew:
  assumes "net env (length (sent s)) = Resolved r"
    and "\<not> header_truthy (header r) ''maintenance''"
    and "map_of (header r) ''server-version'' = Some v"
    and "v \<noteq> []" and "v \<noteq> clientVersion (session (gris s))"
    and "\<not> includes_str endPoint ''login''"
  shows "attempt_body env endPoint formData requestBody attempt headers0 response s =
           (Continue, headers (attempt_request env endPoint formData requestBody headers0 s), Some r,
            upd_session (\<lambda>x. x\<lparr>nonce := nonce x + 1\<rparr>)
              (upd_session (\<lambda>x. x\<lparr>clientVersion := v\<rparr>)
                 (attempt_sent env endPoint formData requestBody headers0 s)))"
  using assms
  unfolding attempt_body_def attempt_request_def attempt_sent_def Let_def
  by (simp add: case_prod_beta)

lemma attempt_body_resolved:
  assumes "net env (length (sent s)) = Resolved r"
    and "\<not> header_truthy (header r) ''maintenance''"
  shows "\<exists>fl s1. attempt_body env endPoint formData requestBody attempt headers0 response s =
           (fl, headers (attempt_request env endPoint formData requestBody headers0 s), Some r, s1) \<and>
           (fl = Continue \<or> fl = Break) \<and>
           sent s1 = sent s @ [attempt_request env endPoint formData requestBody headers0 s]"
  using assms
  unfolding attempt_body_def attempt_request_def attempt_sent_def Let_def
  by (simp add: case_prod_beta split: option.splits)

lemma rejected_run:
  "\<forall>i<n. \<exists>st m. net env (length (sent s) + i) = Rejected st m \<and> st \<noteq> Some 423 \<Longrightarrow>
   attempt + n \<le> 5 \<Longrightarrow>
   \<exists>h' s'. postRequest_loop env endPoint formData requestBody attempt h response s =
             postRequest_loop env endPoint formData requestBody (attempt + n) h' response s' \<and>
           length (sent s') = length (sent s) + n"
proof (induction n arbitrary: attempt h s)
  case 0
  then show ?case by auto
next
  case (Suc n)
  from Suc.prems(1) obtain st m where
    r: "net env (length (sent s)) = Rejected st m" "st \<noteq> Some 423"
    by (metis add.right_neutral zero_less_Suc)
  let ?h1 = "headers (attempt_request env endPoint formData requestBody h s)"
  let ?s1 = "attempt_sent env endPoint formData requestBody h s"
  have a: "attempt \<le> 5" "attempt \<noteq> 5" using Suc.prems(2) by auto
  have step: "postRequest_loop env endPoint formData requestBody attempt h response s =
              postRequest_loop env endPoint formData requestBody (attempt + 1) ?h1 response ?s1"
    using postRequest_loop_step [OF a(1) attempt_body_rejected [OF r]] a(2) by simp
  have len: "length (sent ?s1) = length (sent s) + 1" by simp
  have "\<forall>i<n. \<exists>st m. net env (length (sent ?s1) + i) = Rejected st m \<and> st \<noteq> Some 423"
    using Suc.prems(1) by (auto simp: len)
  from Suc.IH [OF this, of "attempt + 1" ?h1] Suc.prems(2) obtain h' s' where
    "postRequest_loop env endPoint formData requestBody (attempt + 1) ?h1 response ?s1 =
       postRequest_loop env endPoint formData requestBody (attempt + 1 + n) h' response s'"
    "length (sent s') = length (sent ?s1) + n"
    by auto
  with step len show ?case by (auto simp: add.commute add.left_commute)
qed

lemma get_prop_truthy: "truthy v \<Longrightarrow> get_prop v k \<noteq> Inl e"
  by (cases v) (auto split: option.splits)

lemma is_success_read_response:
  "is_success r payload \<Longrightarrow> read_response (Some r) = Inr payload"
  by (auto simp: is_success_def read_response_def get_prop_truthy split: sum.splits)

section \<open>Runs on the example inputs\<close>

lemma attempt_body_eval:
  "attempt_body env endPoint formData requestBody attempt headers0 response s =
     (case net env (length (sent s)) of
        Rejected st m \<Rightarrow>
          ((if st = Some 423 then Throw AccountLocked
            else if attempt = 5 then Throw (MaxAttempts m) else Continue),
           headers (attempt_request env endPoint formData requestBody headers0 s), response,
           attempt_sent env endPoint formData requestBody headers0 s)
      | Resolved r \<Rightarrow>
          if header_truthy (header r) ''maintenance''
          then (Throw Maintenance,
                headers (attempt_request env endPoint formData requestBody headers0 s), Some r,
                attempt_sent env endPoint formData requestBody headers0 s)
          else (case map_of (header r) ''server-version'' of
                  None \<Rightarrow>
                    (Break, headers (attempt_request env endPoint formData requestBody headers0 s),
                     Some r, attempt_sent env endPoint formData requestBody headers0 s)
                | Some v \<Rightarrow>
                    if v \<noteq> [] \<and> v \<noteq> clientVersion (session (gris s)) \<and>
                       \<not> includes_str endPoint ''login''
                    then (Continue,
                          headers (attempt_request env endPoint formData requestBody headers0 s),
                          Some r,
                          upd_session (\<lambda>x. x\<lparr>nonce := nonce x + 1\<rparr>)
                            (upd_session (\<lambda>x. x\<lparr>clientVersion := v\<rparr>)
                               (attempt_sent env endPoint formData requestBody headers0 s)))
                    else (Break,
                          headers (attempt_request env endPoint formData requestBody headers0 s),
                          Some r, attempt_sent env endPoint formData requestBody headers0 s)))"
  unfolding attempt_body_def attempt_request_def attempt_sent_def Let_def
  by (simp add: case_prod_beta split: outcome.splits option.splits)

lemma example_nets:
  "net env_4_fail_ok = script [timeout, timeout, timeout, timeout, Resolved ok_response]"
  "net env_5_fail = script [timeout, timeout, timeout, timeout, timeout, Resolved ok_response]"
  "net env_skew_ok = script [Resolved skew_response, Resolved ok_response]"
  "net env_skew_4_fail =
     script [Resolved skew_response, timeout, timeout, timeout, timeout, Resolved ok_response]"
  "net env_bare = script [Resolved bare_response]"
  by (simp_all add: env_4_fail_ok_def env_5_fail_def env_skew_ok_def env_skew_4_fail_def
        env_bare_def example_env_def)

lemma net_env_ok: "net env_ok = script [Resolved ok_response]"
  by (simp add: env_ok_def example_env_def)

lemma net_env_lifetime:
  "net env_lifetime =
     script [Resolved skew_response, timeout, Resolved ok_response, Resolved ok_response]"
  by (simp add: env_lifetime_def example_env_def)

lemma new_state_simps:
  "sent (new_state g) = []"
  "gris (new_state g) = g"
  "clientVersion (session initial_Gris) = ''41.4''"
  "nonce (session initial_Gris) = 0"
  "commandNum (session initial_Gris) = 2"
  by (simp_all add: new_state_def initial_Gris_def defaultClientVersion_def)

lemma clock_example_env: "clock (example_env n) k = 1600000000 + int k"
  by (simp add: example_env_def)

lemma Number_toString_examples:
  "Number_toString 1600000002 = ''1600000002''"
  "Number_toString 2 = ''2''"
  by (simp_all add: Number_toString_def digits.simps)

lemmas eval_defs =
  postRequest_eq postRequest_loop.simps attempt_body_eval read_response_def header_truthy_def
  example_nets new_state_simps script_def timeout_def
  ok_response_def skew_response_def bare_response_def example_payload_def

lemma four_rejected:
  "\<forall>i<4. \<exists>st m. net env_4_fail_ok (length (sent (new_state initial_Gris)) + i) = Rejected st m \<and> st \<noteq> Some 423"
  "\<forall>i<4. \<exists>st m. net env_5_fail (length (sent (new_state initial_Gris)) + i) = Rejected st m \<and> st \<noteq> Some 423"
  by (simp_all add: example_nets new_state_simps script_def timeout_def nth_Cons')

section \<open>Properties of the signed transport\<close>

text \<open>
  C10. Within one call of \<open>postRequest\<close> the body, the \<open>X-Message-Code\<close> signature and
  every header but \<open>Authorize\<close> are those computed before the loop: each request the call
  transmits, first attempt, retry or resend after a version change, carries the same body
  and signature, and its \<open>Client-Version\<close> header is the client version the session held
  when the call began, whatever the session holds by then.
\<close>

theorem retries_resend_same_request:
  assumes "postRequest env endPoint signKey formData s = (res, s')"
  shows "\<exists>reqs. sent s' = sent s @ reqs \<and>
           (\<forall>q \<in> set reqs.
              body q = (if formData \<noteq> Undefined then Some (call_body env formData s) else None) \<and>
              map_of (headers q) ''X-Message-Code'' =
                (if formData \<noteq> Undefined
                 then Some (hmacSha1 env (JSON_stringify env formData) signKey) else None) \<and>
              map_of (headers q) ''Client-Version'' = Some (clientVersion (session (gris s))) \<and>
              (\<forall>k. k \<noteq> ''Authorize'' \<longrightarrow>
                 map_of (headers q) k = map_of (call_headers env signKey formData s) k))"
proof -
  from postRequest_sends [OF assms] obtain reqs where
    a: "sent s' = sent s @ reqs" and
    b: "\<forall>q \<in> set reqs.
          body q = (if formData \<noteq> Undefined then Some (call_body env formData s) else None) \<and>
          (\<forall>k. k \<noteq> ''Authorize'' \<longrightarrow>
             map_of (headers q) k = map_of (call_headers env signKey formData s) k)"
    unfolding loop_sends_def by blast
  have "\<forall>q \<in> set reqs.
          map_of (headers q) ''X-Message-Code'' =
            (if formData \<noteq> Undefined
             then Some (hmacSha1 env (JSON_stringify env formData) signKey) else None) \<and>
          map_of (headers q) ''Client-Version'' = Some (clientVersion (session (gris s)))"
    using b call_headers_Client_Version [of env signKey formData s]
      call_headers_X_Message_Code [of env signKey formData s] by simp
  with a b show ?thesis by blast
qed

theorem retries_resend_same_request_witness:
  "length (sent (snd (postRequest env_skew_ok ''user/userInfo'' [] (Obj []) (new_state initial_Gris)))) = 2 \<and>
   list_all (\<lambda>q. map_of (headers q) ''Client-Version'' = Some ''41.4'' \<and>
                  map_of (headers q) ''X-Message-Code'' = Some ''00'' \<and>
                  body q = Some (call_body env_skew_ok (Obj []) (new_state initial_Gris)))
     (sent (snd (postRequest env_skew_ok ''user/userInfo'' [] (Obj []) (new_state initial_Gris)))) \<and>
   clientVersion (session (gris (snd (postRequest env_skew_ok ''user/userInfo'' [] (Obj [])
     (new_state initial_Gris))))) = ''42.0''"
proof -
  let ?p = "postRequest env_skew_ok ''user/userInfo'' [] (Obj []) (new_state initial_Gris)"
  have e: "length (sent (snd ?p)) = 2" "clientVersion (session (gris (snd ?p))) = ''42.0''"
    by (simp_all add: eval_defs)
  from retries_resend_same_request [OF prod.collapse [symmetric], where env = env_skew_ok
      and endPoint = "''user/userInfo''" and signKey = "[]" and formData = "Obj []"
      and s = "new_state initial_Gris"]
  obtain reqs where
    r: "sent (snd ?p) = sent (new_state initial_Gris) @ reqs"
       "\<forall>q \<in> set reqs.
              body q = (if Obj [] \<noteq> Undefined
                        then Some (call_body env_skew_ok (Obj []) (new_state initial_Gris)) else None) \<and>
              map_of (headers q) ''X-Message-Code'' =
                (if Obj [] \<noteq> Undefined
                 then Some (hmacSha1 env_skew_ok (JSON_stringify env_skew_ok (Obj [])) []) else None) \<and>
              map_of (headers q) ''Client-Version'' =
                Some (clientVersion (session (gris (new_state initial_Gris))))"
    by blast
  have c: "clientVersion (session (gris (new_state initial_Gris))) = ''41.4''"
    by (simp add: new_state_simps)
  have h: "hmacSha1 env_skew_ok (JSON_stringify env_skew_ok (Obj [])) [] = ''00''"
    by (simp add: hmacSha1_def env_skew_ok_def example_env_def)
  have "reqs = sent (snd ?p)" using r(1) by (simp add: new_state_simps)
  with r(2) have "list_all (\<lambda>q. map_of (headers q) ''Client-Version'' = Some ''41.4'' \<and>
                  map_of (headers q) ''X-Message-Code'' = Some ''00'' \<and>
                  body q = Some (call_body env_skew_ok (Obj []) (new_state initial_Gris)))
     (sent (snd ?p))"
    unfolding c h by (simp add: list_all_iff)
  with e show ?thesis by simp
qed

text \<open>
  C6. When the first four attempts of a call fail with a network error other than 423:
  if the fifth attempt gets a well-formed response, the call returns its payload after
  exactly five transmissions; if the fifth attempt fails in the same way, the call ends
  with the max-attempts error of that fifth failure, after exactly five transmissions.
\<close>

theorem four_failures_then_fifth_attempt:
  "((\<forall>i<4. \<exists>st m. net env (length (sent s) + i) = Rejected st m \<and> st \<noteq> Some 423) \<and>
    net env (length (sent s) + 4) = Resolved r \<and> is_success r payload \<longrightarrow>
      fst (postRequest env endPoint signKey formData s) = Inr payload \<and>
      length (sent (snd (postRequest env endPoint signKey formData s))) = length (sent s) + 5) \<and>
   ((\<forall>i<4. \<exists>st m. net env (length (sent s) + i) = Rejected st m \<and> st \<noteq> Some 423) \<and>
    net env (length (sent s) + 4) = Rejected st5 m5 \<and> st5 \<noteq> Some 423 \<longrightarrow>
      fst (postRequest env endPoint signKey formData s) = Inl (MaxAttempts m5) \<and>
      length (sent (snd (postRequest env endPoint signKey formData s))) = length (sent s) + 5)"
proof (intro conjI impI; elim conjE)
  let ?s0 = "s\<lparr>draws := draws s + 1\<rparr>"
  let ?rb = "call_body env formData s"
  let ?h = "call_headers env signKey formData s"
  assume four: "\<forall>i<4. \<exists>st m. net env (length (sent s) + i) = Rejected st m \<and> st \<noteq> Some 423"
  then have "\<forall>i<4. \<exists>st m. net env (length (sent ?s0) + i) = Rejected st m \<and> st \<noteq> Some 423"
    by simp
  from rejected_run [OF this, of 1 endPoint formData ?rb ?h None] obtain h' s' where
    run: "postRequest_loop env endPoint formData ?rb 1 ?h None ?s0 =
          postRequest_loop env endPoint formData ?rb 5 h' None s'"
    and len: "length (sent s') = length (sent s) + 4"
    by auto
  {
    assume res: "net env (length (sent s) + 4) = Resolved r" and ok: "is_success r payload"
    have m: "\<not> header_truthy (header r) ''maintenance''" using ok by (simp add: is_success_def)
    from res len have "net env (length (sent s')) = Resolved r" by simp
    from attempt_body_resolved [OF this m, of endPoint formData ?rb 5 h' None]
    obtain fl s1 where
      b: "attempt_body env endPoint formData ?rb 5 h' None s' =
            (fl, headers (attempt_request env endPoint formData ?rb h' s'), Some r, s1)"
      and fl: "fl = Continue \<or> fl = Break"
      and snt: "sent s1 = sent s' @ [attempt_request env endPoint formData ?rb h' s']"
      by blast
    have "postRequest_loop env endPoint formData ?rb 5 h' None s' = (Inr (Some r), s1)"
      using postRequest_loop_step [OF _ b] fl by (auto simp: postRequest_loop_exit)
    with run have "postRequest env endPoint signKey formData s = (read_response (Some r), s1)"
      by (simp add: postRequest_eq)
    with is_success_read_response [OF ok] snt len
    show "fst (postRequest env endPoint signKey formData s) = Inr payload"
      and "length (sent (snd (postRequest env endPoint signKey formData s))) = length (sent s) + 5"
      by simp_all
  }
  {
    assume rej: "net env (length (sent s) + 4) = Rejected st5 m5" and st: "st5 \<noteq> Some 423"
    from rej len have "net env (length (sent s')) = Rejected st5 m5" by simp
    from attempt_body_rejected [OF this st, of endPoint formData ?rb 5 h' None]
    have "postRequest_loop env endPoint formData ?rb 5 h' None s' =
            (Inl (MaxAttempts m5), attempt_sent env endPoint formData ?rb h' s')"
      using postRequest_loop_step [of 5 env endPoint formData ?rb h' None s'] by simp
    with run have "postRequest env endPoint signKey formData s =
            (Inl (MaxAttempts m5), attempt_sent env endPoint formData ?rb h' s')"
      by (simp add: postRequest_eq)
    with len
    show "fst (postRequest env endPoint signKey formData s) = Inl (MaxAttempts m5)"
      and "length (sent (snd (postRequest env endPoint signKey formData s))) = length (sent s) + 5"
      by simp_all
  }
qed

theorem four_failures_then_fifth_attempt_witness:
  "fst (postRequest env_4_fail_ok ''user/userInfo'' [] (Obj []) (new_state initial_Gris)) = Inr example_payload \<and>
   length (sent (snd (postRequest env_4_fail_ok ''user/userInfo'' [] (Obj []) (new_state initial_Gris)))) = 5 \<and>
   fst (postRequest env_5_fail ''user/userInfo'' [] (Obj []) (new_state initial_Gris)) = Inl (MaxAttempts ''timeout'') \<and>
   length (sent (snd (postRequest env_5_fail ''user/userInfo'' [] (Obj []) (new_state initial_Gris)))) = 5"
proof -
  have a: "net env_4_fail_ok (length (sent (new_state initial_Gris)) + 4) = Resolved ok_response"
    by (simp add: example_nets new_state_simps script_def)
  have b: "is_success ok_response example_payload"
    by (simp add: is_success_def ok_response_def example_payload_def header_truthy_def)
  have c: "net env_5_fail (length (sent (new_state initial_Gris)) + 4) = Rejected None ''timeout''"
    by (simp add: example_nets new_state_simps script_def timeout_def)
  have d: "(None :: int option) \<noteq> Some 423" by simp
  show ?thesis
    using four_failures_then_fifth_attempt
            [of env_4_fail_ok "new_state initial_Gris" ok_response example_payload
                "''user/userInfo''" "[]" "Obj []"]
          four_failures_then_fifth_attempt
            [of env_5_fail "new_state initial_Gris" _ _ "''user/userInfo''" "[]" "Obj []" None "''timeout''"]
          four_rejected a b c d
    by (simp add: new_state_simps)
qed

text \<open>
  C1, as stated, fails. The transport answers the first attempt with a new server
  version and then fails four times before it would succeed: the call ends with the
  max-attempts error after five transmissions, the resend having used the second of the
  five attempts. With the same four failures and no version change before them, the fifth
  attempt is made and succeeds.
\<close>

theorem version_skew_uses_attempt_counterexample:
  "fst (postRequest env_skew_4_fail ''user/userInfo'' [] (Obj []) (new_state initial_Gris)) =
     Inl (MaxAttempts ''timeout'') \<and>
   length (sent (snd (postRequest env_skew_4_fail ''user/userInfo'' [] (Obj [])
     (new_state initial_Gris)))) = 5 \<and>
   clientVersion (session (gris (snd (postRequest env_skew_4_fail ''user/userInfo'' [] (Obj [])
     (new_state initial_Gris))))) = ''42.0'' \<and>
   fst (postRequest env_4_fail_ok ''user/userInfo'' [] (Obj []) (new_state initial_Gris)) =
     Inr example_payload"
  by (simp add: eval_defs)

text \<open>
  C1, amended. On a call whose end point does not contain \<open>login\<close>, when an attempt
  before the fifth gets a response without the maintenance flag whose \<open>server-version\<close>
  is not empty and differs from the client version, the loop adopts the version, adds one
  more to the nonce and goes on with the next attempt: the resend takes one of the five
  attempts. No call transmits more than five requests.
\<close>

theorem version_skew_resend_counts:
  "(attempt < 5 \<and> net env (length (sent s)) = Resolved r \<and>
    \<not> header_truthy (header r) ''maintenance'' \<and>
    map_of (header r) ''server-version'' = Some v \<and> v \<noteq> [] \<and>
    v \<noteq> clientVersion (session (gris s)) \<and> \<not> includes_str endPoint ''login'' \<longrightarrow>
      postRequest_loop env endPoint formData requestBody attempt headers0 response s =
      postRequest_loop env endPoint formData requestBody (attempt + 1)
        (headers (attempt_request env endPoint formData requestBody headers0 s)) (Some r)
        (upd_session (\<lambda>x. x\<lparr>nonce := nonce x + 1\<rparr>)
           (upd_session (\<lambda>x. x\<lparr>clientVersion := v\<rparr>)
              (attempt_sent env endPoint formData requestBody headers0 s)))) \<and>
   length (sent (snd (postRequest env endPoint signKey formData s))) \<le> length (sent s) + 5"
proof (intro conjI impI; (elim conjE)?)
  assume a: "attempt < 5" and n: "net env (length (sent s)) = Resolved r"
    and m: "\<not> header_truthy (header r) ''maintenance''"
    and v: "map_of (header r) ''server-version'' = Some v" "v \<noteq> []"
           "v \<noteq> clientVersion (session (gris s))"
    and e: "\<not> includes_str endPoint ''login''"
  have "attempt \<le> 5" using a by simp
  from postRequest_loop_step [OF this attempt_body_skew [OF n m v e]]
  show "postRequest_loop env endPoint formData requestBody attempt headers0 response s =
      postRequest_loop env endPoint formData requestBody (attempt + 1)
        (headers (attempt_request env endPoint formData requestBody headers0 s)) (Some r)
        (upd_session (\<lambda>x. x\<lparr>nonce := nonce x + 1\<rparr>)
           (upd_session (\<lambda>x. x\<lparr>clientVersion := v\<rparr>)
              (attempt_sent env endPoint formData requestBody headers0 s)))"
    by simp
next
  from postRequest_sends [OF prod.collapse [symmetric], where env = env and endPoint = endPoint
      and signKey = signKey and formData = formData and s = s]
  show "length (sent (snd (postRequest env endPoint signKey formData s))) \<le> length (sent s) + 5"
    unfolding loop_sends_def by auto
qed

theorem version_skew_resend_counts_witness:
  "postRequest_loop env_skew_ok ''user/userInfo'' (Obj []) ''{}'' 1 [] None (new_state initial_Gris) =
   postRequest_loop env_skew_ok ''user/userInfo'' (Obj []) ''{}'' 2
     (headers (attempt_request env_skew_ok ''user/userInfo'' (Obj []) ''{}'' [] (new_state initial_Gris)))
     (Some skew_response)
     (upd_session (\<lambda>x. x\<lparr>nonce := nonce x + 1\<rparr>)
        (upd_session (\<lambda>x. x\<lparr>clientVersion := ''42.0''\<rparr>)
           (attempt_sent env_skew_ok ''user/userInfo'' (Obj []) ''{}'' [] (new_state initial_Gris)))) \<and>
   length (sent (snd (postRequest env_skew_ok ''user/userInfo'' [] (Obj []) (new_state initial_Gris)))) \<le> 5"
proof -
  have h: "(1::nat) < 5"
    "net env_skew_ok (length (sent (new_state initial_Gris))) = Resolved skew_response"
    "\<not> header_truthy (header skew_response) ''maintenance''"
    "map_of (header skew_response) ''server-version'' = Some ''42.0''"
    "''42.0'' \<noteq> []"
    "''42.0'' \<noteq> clientVersion (session (gris (new_state initial_Gris)))"
    "\<not> includes_str ''user/userInfo'' ''login''"
    by (simp_all add: example_nets new_state_simps script_def skew_response_def header_truthy_def)
  have two: "(1::nat) + 1 = 2" by simp
  have len: "length (sent (new_state initial_Gris)) + 5 = 5" by (simp add: new_state_simps)
  show ?thesis
    using version_skew_resend_counts
            [of 1 env_skew_ok "new_state initial_Gris" skew_response "''42.0''" "''user/userInfo''"
                "Obj []" "''{}''" "[]" None "[]"] h
    unfolding two len by blast
qed

lemma read_response_without_response_data:
  "text_json r = Some (Obj ps) \<Longrightarrow> map_of ps ''response_data'' = None \<Longrightarrow>
   read_response (Some r) = Inl TypeError"
  by (simp add: read_response_def)

lemma read_response_null_response_data:
  "text_json r = Some (Obj ps) \<Longrightarrow> map_of ps ''response_data'' = Some Null \<Longrightarrow>
   read_response (Some r) = Inl TypeError"
  by (simp add: read_response_def)

lemma read_response_InvalidResponse:
  "read_response (Some r) = Inl InvalidResponse \<longleftrightarrow>
     (\<exists>responseBody response_data.
        text_json r = Some responseBody \<and>
        get_prop responseBody ''response_data'' = Inr response_data \<and>
        (response_data = Bool False \<or> response_data = Num 0 \<or> response_data = Str []))"
proof (cases "text_json r")
  case None
  then show ?thesis by (simp add: read_response_def)
next
  case (Some responseBody)
  show ?thesis
  proof (cases "get_prop responseBody ''response_data''")
    case (Inl e)
    have "e \<noteq> InvalidResponse"
      using Inl by (cases responseBody) (auto split: option.splits)
    with Some Inl show ?thesis by (simp add: read_response_def)
  next
    case (Inr response_data)
    with Some show ?thesis
      by (cases response_data) (auto simp: read_response_def split: option.splits)
  qed
qed

text \<open>
  C2 on a response whose body has no \<open>response_data\<close>: the read of
  \<open>response_data.error_code\<close> comes first and raises a TypeError; the call does not end
  with the error that reports the missing \<open>response_data\<close>.
\<close>

theorem missing_response_data_TypeError:
  "fst (postRequest env_bare ''user/userInfo'' [] (Obj []) (new_state initial_Gris)) = Inl TypeError \<and>
   fst (postRequest env_bare ''user/userInfo'' [] (Obj []) (new_state initial_Gris)) \<noteq> Inl InvalidResponse"
  by (simp add: eval_defs)

section \<open>Properties of the nonce\<close>

lemma nonce_step_refl: "nonce_step s s"
  by (simp add: nonce_step_def)

lemma nonce_step_quiet:
  "sent t = sent s \<Longrightarrow> nonce (session (gris t)) = nonce (session (gris s)) \<Longrightarrow> nonce_step s t"
  by (simp add: nonce_step_def)

lemma nonce_step_trans:
  assumes "nonce_step s t" and "nonce_step t u"
  shows "nonce_step s u"
proof -
  from assms(1) obtain xs where
    x: "sent t = sent s @ xs"
       "list_all (\<lambda>q. nonce (session (gris s)) < auth_nonce (req_authorize q) \<and>
                      auth_nonce (req_authorize q) \<le> nonce (session (gris t))) xs"
       "sorted_wrt (<) (map (\<lambda>q. auth_nonce (req_authorize q)) xs)"
       "nonce (session (gris s)) \<le> nonce (session (gris t))"
    unfolding nonce_step_def by blast
  from assms(2) obtain ys where
    y: "sent u = sent t @ ys"
       "list_all (\<lambda>q. nonce (session (gris t)) < auth_nonce (req_authorize q) \<and>
                      auth_nonce (req_authorize q) \<le> nonce (session (gris u))) ys"
       "sorted_wrt (<) (map (\<lambda>q. auth_nonce (req_authorize q)) ys)"
       "nonce (session (gris t)) \<le> nonce (session (gris u))"
    unfolding nonce_step_def by blast
  have 1: "sent u = sent s @ (xs @ ys)" using x(1) y(1) by simp
  have 2: "list_all (\<lambda>q. nonce (session (gris s)) < auth_nonce (req_authorize q) \<and>
                      auth_nonce (req_authorize q) \<le> nonce (session (gris u))) (xs @ ys)"
    using x(2,4) y(2,4) by (auto simp: list_all_iff)
  have 3: "sorted_wrt (<) (map (\<lambda>q. auth_nonce (req_authorize q)) (xs @ ys))"
    using x(2,3) y(2,3) by (fastforce simp: sorted_wrt_append list_all_iff)
  have 4: "nonce (session (gris s)) \<le> nonce (session (gris u))" using x(4) y(4) by simp
  show ?thesis unfolding nonce_step_def using 1 2 3 4 by blast
qed

lemma nonce_inv_step:
  assumes "nonce_inv s" and "nonce_step s t"
  shows "nonce_inv t"
proof -
  from assms(2) obtain xs where
    x: "sent t = sent s @ xs"
       "list_all (\<lambda>q. nonce (session (gris s)) < auth_nonce (req_authorize q) \<and>
                      auth_nonce (req_authorize q) \<le> nonce (session (gris t))) xs"
       "sorted_wrt (<) (map (\<lambda>q. auth_nonce (req_authorize q)) xs)"
       "nonce (session (gris s)) \<le> nonce (session (gris t))"
    unfolding nonce_step_def by blast
  have n: "nonces t = nonces s @ map (\<lambda>q. auth_nonce (req_authorize q)) xs"
    using x(1) by (simp add: nonces_def)
  have a: "sorted_wrt (<) (nonces t)"
    using assms(1) x(2,3) unfolding n nonce_inv_def
    by (fastforce simp: sorted_wrt_append list_all_iff)
  have b: "list_all (\<lambda>n. n \<le> nonce (session (gris t))) (nonces t)"
    using assms(1) x(2,4) unfolding n nonce_inv_def
    by (fastforce simp: list_all_iff)
  show ?thesis unfolding nonce_inv_def using a b by simp
qed

lemma loop_sends_nonce_step: "loop_sends u b a h s s' \<Longrightarrow> nonce_step s s'"
  unfolding loop_sends_def nonce_step_def by (auto simp: list_all_iff)

lemma postRequest_nonce_step: "nonce_step s (snd (postRequest env endPoint signKey formData s))"
  using postRequest_sends [OF prod.collapse [symmetric], where env = env and endPoint = endPoint
      and signKey = signKey and formData = formData and s = s]
  by (rule loop_sends_nonce_step)

text \<open>The steps that neither transmit nor touch the nonce.\<close>

lemma set_field_simps [simp]:
  "gris (set_field a k v s) = gris s"
  "sent (set_field a k v s) = sent s"
  "ticks (set_field a k v s) = ticks s"
  "heap (set_field a k v s) a = AList.update k v (heap s a)"
  "b \<noteq> a \<Longrightarrow> heap (set_field a k v s) b = heap s b"
  by (simp_all add: set_field_def)

lemma timeStamp_simps [simp]:
  "fst (timeStamp env s) = clock env (ticks s)"
  "snd (timeStamp env s) = s\<lparr>ticks := ticks s + 1\<rparr>"
  by (simp_all add: timeStamp_def)

lemma command_token_simps [simp]:
  "snd (command_token env s) = s\<lparr>ticks := ticks s + 1\<rparr>"
  "fst (command_token env s) =
     loginKey (keychain (gris s)) @ ''.'' @ Number_toString (clock env (ticks s)) @ ''.'' @
     Number_toString (commandNum (session (gris s)))"
  by (simp_all add: command_token_def case_prod_beta)

lemma new_object_simps [simp]:
  "gris (snd (new_object ps s)) = gris s"
  "sent (snd (new_object ps s)) = sent s"
  by (simp_all add: new_object_def)

lemma upd_keychain_simps [simp]:
  "sent (upd_keychain f s) = sent s"
  "session (gris (upd_keychain f s)) = session (gris s)"
  "keychain (gris (upd_keychain f s)) = f (keychain (gris s))"
  "heap (upd_keychain f s) = heap s"
  by (simp_all add: upd_keychain_def)

lemma restamp_quiet [simp]:
  "gris (restamp env a s) = gris s"
  "sent (restamp env a s) = sent s"
  by (simp_all add: restamp_def Let_def case_prod_beta)

lemma inject_defaults_quiet [simp]:
  "gris (inject_defaults env endPoint a s) = gris s"
  "sent (inject_defaults env endPoint a s) = sent s"
  by (simp_all add: inject_defaults_def Let_def case_prod_beta)

lemma build_envelope_quiet [simp]:
  "gris (build_envelope env endPoint a options s) = gris s"
  "sent (build_envelope env endPoint a options s) = sent s"
  by (simp_all add: build_envelope_def Let_def)

lemma requestData_arg_quiet [simp]:
  "gris (snd (requestData_arg requestData0 s)) = gris s"
  "sent (snd (requestData_arg requestData0 s)) = sent s"
  by (simp_all add: requestData_arg_def split: option.splits)

lemma APIRequest_eq:
  "APIRequest env endPoint requestData0 options s0 =
     (case fst (envelope_post env endPoint requestData0 options s0) of
        Inl e \<Rightarrow> (Inl e, snd (envelope_post env endPoint requestData0 options s0))
      | Inr r \<Rightarrow>
          (Inr r,
           if truthy (field (heap (snd (envelope_post env endPoint requestData0 options s0))
                               (fst (requestData_arg requestData0 s0))) ''commandNum'')
           then upd_session (\<lambda>x. x\<lparr>commandNum := commandNum x + 1\<rparr>)
                  (snd (envelope_post env endPoint requestData0 options s0))
           else snd (envelope_post env endPoint requestData0 options s0)))"
  unfolding APIRequest_def envelope_post_def envelope_def envelope_state_def Let_def
  by (simp add: case_prod_beta)

lemma envelope_state_quiet [simp]:
  "gris (envelope_state env endPoint requestData0 options s) = gris s"
  "sent (envelope_state env endPoint requestData0 options s) = sent s"
  by (simp_all add: envelope_state_def)

lemma envelope_post_nonce_step:
  "nonce_step s (snd (envelope_post env endPoint requestData0 options s))"
proof -
  have 1: "nonce_step s (envelope_state env endPoint requestData0 options s)"
    by (rule nonce_step_quiet) simp_all
  have 2: "nonce_step (envelope_state env endPoint requestData0 options s)
             (snd (envelope_post env endPoint requestData0 options s))"
    unfolding envelope_post_def by (rule postRequest_nonce_step)
  show ?thesis using 1 2 by (rule nonce_step_trans)
qed

lemma APIRequest_nonce_step: "nonce_step s (snd (APIRequest env endPoint requestData options s))"
proof -
  let ?t = "snd (envelope_post env endPoint requestData options s)"
  have "snd (APIRequest env endPoint requestData options s) = ?t \<or>
        snd (APIRequest env endPoint requestData options s) =
          upd_session (\<lambda>x. x\<lparr>commandNum := commandNum x + 1\<rparr>) ?t"
    unfolding APIRequest_eq by (cases "fst (envelope_post env endPoint requestData options s)") simp_all
  moreover have "nonce_step ?t (upd_session (\<lambda>x. x\<lparr>commandNum := commandNum x + 1\<rparr>) ?t)"
    by (rule nonce_step_quiet) simp_all
  ultimately show ?thesis
    using envelope_post_nonce_step [of s env endPoint requestData options]
    by (auto intro: nonce_step_trans)
qed

lemma stamp_methods_quiet [simp]:
  "gris (stamp_methods env ms s) = gris s"
  "sent (stamp_methods env ms s) = sent s"
  by (induction ms arbitrary: s) (simp_all add: case_prod_beta)

lemma APIMultiRequest_nonce_step: "nonce_step s (snd (APIMultiRequest env methods s))"
proof -
  have 1: "nonce_step s (stamp_methods env methods s)"
    by (rule nonce_step_quiet) simp_all
  show ?thesis
    unfolding APIMultiRequest_def Let_def
    by (rule nonce_step_trans [OF 1 postRequest_nonce_step])
qed

lemma nonce_step_cong:
  "sent t' = sent t \<Longrightarrow> nonce (session (gris t')) = nonce (session (gris t)) \<Longrightarrow>
   nonce_step s t' = nonce_step s t"
  by (simp add: nonce_step_def)

lemma crypto_randomBytes_quiet [simp]:
  "gris (snd (crypto_randomBytes env n s)) = gris s"
  "sent (snd (crypto_randomBytes env n s)) = sent s"
  by (simp_all add: crypto_randomBytes_def)

lemma getLatestBundleVersion_quiet [simp]:
  "gris (snd (getLatestBundleVersion env a s)) = gris s"
  "sent (snd (getLatestBundleVersion env a s)) = sent s"
  by (simp_all add: getLatestBundleVersion_def Let_def)

lemma store_authkey_quiet [simp]:
  "sent (snd (store_authkey env clientKey a d s)) = sent s"
  "nonce (session (gris (snd (store_authkey env clientKey a d s)))) = nonce (session (gris s))"
  by (cases "(env, clientKey, a, d, s)" rule: store_authkey.cases; simp)+

lemma store_login_quiet [simp]:
  "sent (snd (store_login u t s)) = sent s"
  "nonce (session (gris (snd (store_login u t s)))) = nonce (session (gris s))"
  by (cases "(u, t, s)" rule: store_login.cases; simp)+

lemma nonce_step_simps [simp]:
  "nonce_step s (upd_keychain f t) = nonce_step s t"
  "nonce_step s (snd (new_object ps t)) = nonce_step s t"
  "nonce_step s (snd (crypto_randomBytes env n t)) = nonce_step s t"
  "nonce_step s (snd (getLatestBundleVersion env a t)) = nonce_step s t"
  "nonce_step s (snd (store_authkey env clientKey x d t)) = nonce_step s t"
  "nonce_step s (snd (store_login u y t)) = nonce_step s t"
  "nonce_step s (upd_session (\<lambda>x. x\<lparr>bundleVersion := v\<rparr>) t) = nonce_step s t"
  "nonce_step s (upd_session (\<lambda>x. x\<lparr>mgd := m\<rparr>) t) = nonce_step s t"
  by (rule nonce_step_cong; simp)+

lemma nonce_step_APIRequest:
  "nonce_step s t \<Longrightarrow> nonce_step s (snd (APIRequest env endPoint requestData options t))"
  by (erule nonce_step_trans) (rule APIRequest_nonce_step)

lemma doAuth_nonce_step: "nonce_step s (snd (doAuth env s))"
  unfolding doAuth_def Let_def
  by (simp add: case_prod_beta nonce_step_refl nonce_step_APIRequest split: sum.splits)

lemma nonce_step_doAuth:
  "nonce_step s t \<Longrightarrow> nonce_step s (snd (doAuth env t))"
  by (erule nonce_step_trans) (rule doAuth_nonce_step)

lemma login_nonce_step: "nonce_step s (snd (login env s))"
  unfolding login_def Let_def
  by (simp add: case_prod_beta nonce_step_refl nonce_step_APIRequest nonce_step_doAuth
        split: sum.splits)

lemma perform_nonce_step: "nonce_step s (perform env op s)"
  by (cases op)
     (simp_all add: APIRequest_nonce_step APIMultiRequest_nonce_step login_nonce_step
        nonce_step_refl)

lemma run_nonce_step: "nonce_step s (run env ops s)"
proof (induction ops arbitrary: s)
  case Nil
  show ?case by (simp add: nonce_step_refl)
next
  case (Cons op ops)
  have "nonce_step s (perform env op s)" by (rule perform_nonce_step)
  moreover have "nonce_step (perform env op s) (run env ops (perform env op s))" by (rule Cons.IH)
  ultimately show ?case by (simp add: nonce_step_trans)
qed

lemma nonce_inv_new_state: "nonce_inv (new_state g)"
  by (simp add: nonce_inv_def nonces_def new_state_def)

lemma APIRequest_transport:
  "sent (snd (APIRequest env endPoint requestData options s)) =
     sent (snd (envelope_post env endPoint requestData options s))"
  "nonce (session (gris (snd (APIRequest env endPoint requestData options s)))) =
     nonce (session (gris (snd (envelope_post env endPoint requestData options s))))"
  "clientVersion (session (gris (snd (APIRequest env endPoint requestData options s)))) =
     clientVersion (session (gris (snd (envelope_post env endPoint requestData options s))))"
  unfolding APIRequest_eq
  by (cases "fst (envelope_post env endPoint requestData options s)"; simp)+

text \<open>
  C5. Every pass through the loop body transmits one request, and that request carries
  the nonce of the session plus one; and over any sequence of operations on a newly
  constructed client, the nonces of the transmitted requests are strictly increasing, so
  no two requests carry the same nonce.
\<close>

theorem nonce_fresh_on_every_send:
  "(attempt_body env endPoint formData requestBody attempt headers0 response s =
      (fl, headers1, response1, s1) \<longrightarrow>
    (\<exists>q. sent s1 = sent s @ [q] \<and>
         auth_nonce (req_authorize q) = nonce (session (gris s)) + 1)) \<and>
   sorted_wrt (<) (nonces (run env ops (new_state g))) \<and>
   distinct (nonces (run env ops (new_state g)))"
proof (intro conjI impI)
  assume "attempt_body env endPoint formData requestBody attempt headers0 response s =
      (fl, headers1, response1, s1)"
  from attempt_body_sent [OF this]
  show "\<exists>q. sent s1 = sent s @ [q] \<and> auth_nonce (req_authorize q) = nonce (session (gris s)) + 1"
    by simp
next
  have "nonce_inv (run env ops (new_state g))"
    using nonce_inv_new_state run_nonce_step by (rule nonce_inv_step)
  then show s: "sorted_wrt (<) (nonces (run env ops (new_state g)))"
    by (simp add: nonce_inv_def)
  show "distinct (nonces (run env ops (new_state g)))"
    using s by (simp add: strict_sorted_iff)
qed

theorem nonce_fresh_on_every_send_witness:
  "map (\<lambda>q. auth_nonce (req_authorize q))
     (sent (snd (snd (snd (attempt_body env_lifetime ''user/userInfo'' (Obj []) ''{}'' 1 [] None
        (new_state initial_Gris)))))) = [1] \<and>
   nonces (run env_lifetime example_ops (new_state initial_Gris)) = [1, 3, 4, 5] \<and>
   sorted_wrt (<) (nonces (run env_lifetime example_ops (new_state initial_Gris))) \<and>
   distinct (nonces (run env_lifetime example_ops (new_state initial_Gris)))"
proof -
  let ?b = "attempt_body env_lifetime ''user/userInfo'' (Obj []) ''{}'' 1 [] None (new_state initial_Gris)"
  note t = nonce_fresh_on_every_send [where env = env_lifetime and endPoint = "''user/userInfo''"
      and formData = "Obj []" and requestBody = "''{}''" and attempt = 1 and ?headers0.0 = "[]"
      and response = None and s = "new_state initial_Gris" and fl = "fst ?b"
      and ?headers1.0 = "fst (snd ?b)" and ?response1.0 = "fst (snd (snd ?b))"
      and ?s1.0 = "snd (snd (snd ?b))" and ops = example_ops and g = initial_Gris]
  have 1: "map (\<lambda>q. auth_nonce (req_authorize q)) (sent (snd (snd (snd ?b)))) = [1]"
    using t by (auto simp: new_state_simps)
  have 2: "nonces (run env_lifetime example_ops (new_state initial_Gris)) = [1, 3, 4, 5]"
    by (simp add: nonces_def example_ops_def APIRequest_transport envelope_post_def
          APIMultiRequest_def Let_def net_env_lifetime eval_defs del: stamp_methods.simps)
  show ?thesis using 1 2 t by simp
qed

section \<open>Properties of the request envelope\<close>

lemma has_key_update [simp]: "has_key (AList.update k v ps) k' = (k' = k \<or> has_key ps k')"
  by (simp add: has_key_def update_conv')

lemma field_update [simp]: "field (AList.update k v ps) k' = (if k' = k then v else field ps k')"
  by (simp add: field_def update_conv')

lemma field_absent: "\<not> has_key ps k \<Longrightarrow> field ps k = Undefined"
  by (simp add: has_key_def field_def)

lemma timeStamp_pair: "timeStamp env s = (clock env (ticks s), s\<lparr>ticks := ticks s + 1\<rparr>)"
  by (simp add: timeStamp_def)

lemma command_token_pair:
  "command_token env s =
     (loginKey (keychain (gris s)) @ ''.'' @ Number_toString (clock env (ticks s)) @ ''.'' @
      Number_toString (commandNum (session (gris s))), s\<lparr>ticks := ticks s + 1\<rparr>)"
  by (simp add: command_token_def timeStamp_def)

lemma truthy_token_at [simp]: "truthy (token_at env s k)"
  by (simp add: token_at_def)

lemma restamp_other_heap: "b \<noteq> a \<Longrightarrow> heap (restamp env a s) b = heap s b"
  by (simp add: restamp_def Let_def timeStamp_pair command_token_pair)

lemma restamp_commandNum:
  "has_key (heap (restamp env a s) a) ''commandNum'' = has_key (heap s a) ''commandNum''"
  "has_key (heap s a) ''commandNum'' \<Longrightarrow>
     \<exists>k. field (heap (restamp env a s) a) ''commandNum'' = token_at env s k"
  by (auto simp: restamp_def Let_def timeStamp_pair command_token_pair token_at_def)

lemma restamp_untouched:
  "k \<noteq> ''timeStamp'' \<Longrightarrow> k \<noteq> ''mgd'' \<Longrightarrow> k \<noteq> ''commandNum'' \<Longrightarrow>
     map_of (heap (restamp env a s) a) k = map_of (heap s a) k"
  by (simp add: restamp_def Let_def timeStamp_pair command_token_pair update_conv')

lemma inject_defaults_heap:
  "map_of (heap (inject_defaults env endPoint a s) a) =
     (map_of (heap s a))
       (''module'' \<mapsto> at_index (split endPoint CHR ''/'') 0,
        ''action'' \<mapsto> at_index (split endPoint CHR ''/'') 1,
        ''timeStamp'' \<mapsto> Num (clock env (ticks s)),
        ''mgd'' \<mapsto> Num (gameMode_value (mgd (session (gris s)))),
        ''commandNum'' \<mapsto> token_at env s (ticks s + 1))"
  by (simp add: inject_defaults_def Let_def timeStamp_pair command_token_pair update_conv'
        token_at_def)

lemma requestData_arg_heap:
  "heap (snd (requestData_arg requestData s)) (fst (requestData_arg requestData s)) =
     (case requestData of None \<Rightarrow> [] | Some a \<Rightarrow> heap s a)"
  by (simp add: requestData_arg_def new_object_def split: option.splits)

lemma envelope_has_commandNum:
  "has_key (envelope env endPoint requestData options s) ''commandNum'' =
     (\<not> excludeDefaultValues options \<or>
      (case requestData of None \<Rightarrow> False | Some a \<Rightarrow> has_key (heap s a) ''commandNum''))"
proof (cases "excludeDefaultValues options")
  case True
  have "has_key (envelope env endPoint requestData options s) ''commandNum'' =
        has_key (case requestData of None \<Rightarrow> [] | Some a \<Rightarrow> heap s a) ''commandNum''"
    using True unfolding envelope_def envelope_state_def build_envelope_def Let_def
    by (simp add: restamp_commandNum(1) requestData_arg_heap)
  also have "\<dots> = (case requestData of None \<Rightarrow> False | Some a \<Rightarrow> has_key (heap s a) ''commandNum'')"
    by (cases requestData) (simp_all add: has_key_def)
  finally show ?thesis using True by simp
next
  case False
  then show ?thesis
    unfolding envelope_def envelope_state_def build_envelope_def Let_def
    by (simp add: has_key_def inject_defaults_heap)
qed

lemma envelope_token:
  assumes "has_key (envelope env endPoint requestData options s) ''commandNum''"
  shows "\<exists>k. field (envelope env endPoint requestData options s) ''commandNum'' = token_at env s k"
proof (cases "excludeDefaultValues options")
  case True
  let ?a = "fst (requestData_arg requestData s)"
  let ?t = "snd (requestData_arg requestData s)"
  have e: "envelope env endPoint requestData options s = heap (restamp env ?a ?t) ?a"
    using True by (simp add: envelope_def envelope_state_def build_envelope_def)
  have "has_key (heap ?t ?a) ''commandNum''"
    using assms unfolding e by (simp add: restamp_commandNum(1))
  from restamp_commandNum(2) [OF this, of env]
  obtain k where "field (heap (restamp env ?a ?t) ?a) ''commandNum'' = token_at env ?t k" ..
  then show ?thesis unfolding e by (auto simp: token_at_def)
next
  case False
  let ?a = "fst (requestData_arg requestData s)"
  let ?t = "restamp env ?a (snd (requestData_arg requestData s))"
  have e: "envelope env endPoint requestData options s = heap (inject_defaults env endPoint ?a ?t) ?a"
    using False by (simp add: envelope_def envelope_state_def build_envelope_def)
  have "field (heap (inject_defaults env endPoint ?a ?t) ?a) ''commandNum'' =
          token_at env ?t (ticks ?t + 1)"
    by (simp add: field_def inject_defaults_heap)
  then show ?thesis unfolding e by (auto simp: token_at_def)
qed

lemma postRequest_heap:
  "heap (snd (postRequest env endPoint signKey formData s)) = heap s"
  "commandNum (session (gris (snd (postRequest env endPoint signKey formData s)))) =
     commandNum (session (gris s))"
  using postRequest_frame [OF prod.collapse [symmetric], where env = env and endPoint = endPoint
      and signKey = signKey and formData = formData and s = s]
  by (simp_all add: frame_def)

lemma envelope_post_heap:
  "heap (snd (envelope_post env endPoint requestData options s)) (fst (requestData_arg requestData s)) =
     envelope env endPoint requestData options s"
  "commandNum (session (gris (snd (envelope_post env endPoint requestData options s)))) =
     commandNum (session (gris s))"
  by (simp_all add: envelope_post_def postRequest_heap envelope_def)

lemma APIRequest_fst:
  "fst (APIRequest env endPoint requestData options s) =
     fst (envelope_post env endPoint requestData options s)"
  unfolding APIRequest_eq
  by (cases "fst (envelope_post env endPoint requestData options s)") simp_all

lemma envelope_truthy:
  "truthy (field (envelope env endPoint requestData options s) ''commandNum'') =
     has_key (envelope env endPoint requestData options s) ''commandNum''"
proof (cases "has_key (envelope env endPoint requestData options s) ''commandNum''")
  case True
  with envelope_token [OF True] show ?thesis by auto
next
  case False
  then show ?thesis by (simp add: field_absent)
qed

lemma envelope_post_sends:
  "\<exists>reqs. sent (snd (envelope_post env endPoint requestData options s)) = sent s @ reqs \<and>
     (\<forall>q \<in> set reqs.
        body q = Some (call_body env (Obj (envelope env endPoint requestData options s))
                        (envelope_state env endPoint requestData options s)))"
proof -
  from postRequest_sends [OF prod.collapse [symmetric], where env = env
      and endPoint = endPoint
      and signKey = "if useSpecialKey options
        then special_key (keychain (gris (snd (requestData_arg requestData s))))
        else sessionKey (keychain (gris (snd (requestData_arg requestData s))))"
      and formData = "Obj (envelope env endPoint requestData options s)"
      and s = "envelope_state env endPoint requestData options s"]
  show ?thesis
    unfolding envelope_post_def loop_sends_def by auto
qed

lemma APIRequest_heap:
  "heap (snd (APIRequest env endPoint requestData options s)) =
     heap (envelope_state env endPoint requestData options s)"
  unfolding APIRequest_eq
  by (cases "fst (envelope_post env endPoint requestData options s)")
     (simp_all add: envelope_post_def postRequest_heap)

lemma APIRequest_commandNum:
  "commandNum (session (gris (snd (APIRequest env endPoint requestData options s)))) =
     (case fst (APIRequest env endPoint requestData options s) of
        Inl e \<Rightarrow> commandNum (session (gris s))
      | Inr r \<Rightarrow>
          if has_key (envelope env endPoint requestData options s) ''commandNum''
          then commandNum (session (gris s)) + 1 else commandNum (session (gris s)))"
  unfolding APIRequest_fst
  unfolding APIRequest_eq
  by (cases "fst (envelope_post env endPoint requestData options s)")
     (simp_all add: envelope_post_heap envelope_truthy)

text \<open>
  C4. After \<open>APIRequest\<close>, \<open>commandNum\<close> is one more than before when the call returned
  and the envelope had a \<open>commandNum\<close> field, and is what it was when the call raised or
  the envelope had no such field. A \<open>commandNum\<close> field of the envelope always holds a
  command token, and the envelope is what every request of the call carries as its body.
\<close>

theorem commandNum_counts_successful_tokens:
  "commandNum (session (gris (snd (APIRequest env endPoint requestData options s)))) =
     (case fst (APIRequest env endPoint requestData options s) of
        Inl e \<Rightarrow> commandNum (session (gris s))
      | Inr r \<Rightarrow>
          if has_key (envelope env endPoint requestData options s) ''commandNum''
          then commandNum (session (gris s)) + 1 else commandNum (session (gris s))) \<and>
   (has_key (envelope env endPoint requestData options s) ''commandNum'' \<longrightarrow>
      (\<exists>k. field (envelope env endPoint requestData options s) ''commandNum'' = token_at env s k)) \<and>
   (\<exists>reqs. sent (snd (APIRequest env endPoint requestData options s)) = sent s @ reqs \<and>
      (\<forall>q \<in> set reqs.
         body q = Some (call_body env (Obj (envelope env endPoint requestData options s))
                         (envelope_state env endPoint requestData options s))))"
  using APIRequest_commandNum [of env endPoint requestData options s]
    envelope_token [of env endPoint requestData options s]
    envelope_post_sends [of env endPoint requestData options s]
  by (simp add: APIRequest_transport(1))

theorem commandNum_counts_successful_tokens_witness:
  "commandNum (session (gris (snd (APIRequest env_ok ''user/userInfo'' None plain_options
     (new_state initial_Gris))))) = 3 \<and>
   commandNum (session (gris (snd (APIRequest env_5_fail ''user/userInfo'' None plain_options
     (new_state initial_Gris))))) = 2 \<and>
   commandNum (session (gris (snd (APIRequest env_ok ''login/authkey'' None exclude_options
     (new_state initial_Gris))))) = 2"
proof -
  have a: "fst (APIRequest env_ok ''user/userInfo'' None plain_options (new_state initial_Gris)) =
             Inr example_payload"
    "fst (APIRequest env_5_fail ''user/userInfo'' None plain_options (new_state initial_Gris)) =
             Inl (MaxAttempts ''timeout'')"
    "fst (APIRequest env_ok ''login/authkey'' None exclude_options (new_state initial_Gris)) =
             Inr example_payload"
    by (simp_all add: APIRequest_fst envelope_post_def net_env_ok eval_defs)
  have b: "has_key (envelope env_ok ''user/userInfo'' None plain_options (new_state initial_Gris))
             ''commandNum''"
    "\<not> has_key (envelope env_ok ''login/authkey'' None exclude_options (new_state initial_Gris))
             ''commandNum''"
    by (simp_all add: envelope_has_commandNum plain_options_def exclude_options_def)
  show ?thesis
    using commandNum_counts_successful_tokens
            [of env_ok "''user/userInfo''" None plain_options "new_state initial_Gris"]
          commandNum_counts_successful_tokens
            [of env_5_fail "''user/userInfo''" None plain_options "new_state initial_Gris"]
          commandNum_counts_successful_tokens
            [of env_ok "''login/authkey''" None exclude_options "new_state initial_Gris"]
    by (simp add: a b new_state_simps)
qed

lemma split_not_Nil: "split s d \<noteq> []"
  by (induction s) simp_all

lemma length_split: "length (split s d) = Suc (count_list s d)"
proof (induction s)
  case Nil
  show ?case by simp
next
  case (Cons c cs)
  then show ?case using split_not_Nil [of cs d] by (cases "split cs d") auto
qed

lemma split_pieces: "\<forall>p \<in> set (split s d). d \<notin> set p"
proof (induction s)
  case Nil
  show ?case by simp
next
  case (Cons c cs)
  then show ?case using split_not_Nil [of cs d] by (cases "split cs d") auto
qed

lemma split_join: "concat (map (\<lambda>p. d # p) (split s d)) = d # s"
proof (induction s)
  case Nil
  show ?case by simp
next
  case (Cons c cs)
  then show ?case using split_not_Nil [of cs d] by (cases "split cs d") auto
qed

lemma split_examples:
  "split ''user/userInfo'' CHR ''/'' = [''user'', ''userInfo'']"
  "split ''user/'' CHR ''/'' = [''user'', '''']"
  "split ''user'' CHR ''/'' = [''user'']"
  "split ''/'' CHR ''/'' = ['''', '''']"
  "split '''' CHR ''/'' = ['''']"
  by simp_all

lemma at_index_split_0: "at_index (split endPoint d) 0 = Str (hd (split endPoint d))"
  using split_not_Nil [of endPoint d] by (cases "split endPoint d") (simp_all add: at_index_def)

lemma at_index_split_1:
  "at_index (split endPoint d) 1 =
     (if d \<in> set endPoint then Str (split endPoint d ! 1) else Undefined)"
  by (simp add: at_index_def length_split count_list_0_iff)

lemma build_envelope_inject:
  "\<not> excludeDefaultValues options \<Longrightarrow>
   map_of (heap (build_envelope env endPoint a options s) a) =
     (map_of (heap (restamp env a s) a))
       (''module'' \<mapsto> at_index (split endPoint CHR ''/'') 0,
        ''action'' \<mapsto> at_index (split endPoint CHR ''/'') 1,
        ''timeStamp'' \<mapsto> Num (clock env (ticks (restamp env a s))),
        ''mgd'' \<mapsto> Num (gameMode_value (mgd (session (gris s)))),
        ''commandNum'' \<mapsto> token_at env s (ticks (restamp env a s) + 1))"
  by (simp add: build_envelope_def inject_defaults_heap token_at_def)

text \<open>
  C8. When default values are not excluded, after \<open>APIRequest\<close> the caller's own object
  holds under \<open>module\<close> and \<open>action\<close> the first and the second piece of the end point split
  at \<open>/\<close> (\<open>undefined\<close> for \<open>action\<close> when the end point has no \<open>/\<close>, the empty string when
  a piece is empty), the time stamp, the game mode and the command token, whatever it held
  under these names before and whether the call returned or raised; its other properties
  are as they were.
\<close>

theorem APIRequest_writes_into_callers_object:
  assumes "\<not> excludeDefaultValues options"
  shows "map_of (heap (snd (APIRequest env endPoint (Some a) options s)) a) ''module'' =
           Some (at_index (split endPoint CHR ''/'') 0) \<and>
         map_of (heap (snd (APIRequest env endPoint (Some a) options s)) a) ''action'' =
           Some (at_index (split endPoint CHR ''/'') 1) \<and>
         map_of (heap (snd (APIRequest env endPoint (Some a) options s)) a) ''timeStamp'' =
           Some (Num (clock env (ticks (restamp env a s)))) \<and>
         map_of (heap (snd (APIRequest env endPoint (Some a) options s)) a) ''mgd'' =
           Some (Num (gameMode_value (mgd (session (gris s))))) \<and>
         map_of (heap (snd (APIRequest env endPoint (Some a) options s)) a) ''commandNum'' =
           Some (token_at env s (ticks (restamp env a s) + 1)) \<and>
         (\<forall>k. k \<notin> {''module'', ''action'', ''timeStamp'', ''mgd'', ''commandNum''} \<longrightarrow>
            map_of (heap (snd (APIRequest env endPoint (Some a) options s)) a) k =
            map_of (heap s a) k)"
proof -
  have h: "heap (snd (APIRequest env endPoint (Some a) options s)) a =
           heap (build_envelope env endPoint a options s) a"
    by (simp add: APIRequest_heap envelope_state_def requestData_arg_def)
  show ?thesis
    unfolding h build_envelope_inject [OF assms]
    by (simp add: restamp_untouched)
qed

theorem APIRequest_writes_into_callers_object_witness:
  "\<not> excludeDefaultValues plain_options \<and>
   map_of (heap caller_state 0) ''module'' = Some (Str ''mine'') \<and>
   map_of (heap caller_state 0) ''commandNum'' = Some Null \<and>
   fst (APIRequest env_5_fail ''user/userInfo'' (Some 0) plain_options caller_state) =
     Inl (MaxAttempts ''timeout'') \<and>
   map_of (heap (snd (APIRequest env_5_fail ''user/userInfo'' (Some 0) plain_options caller_state)) 0)
     ''module'' = Some (Str ''user'') \<and>
   map_of (heap (snd (APIRequest env_5_fail ''user/userInfo'' (Some 0) plain_options caller_state)) 0)
     ''action'' = Some (Str ''userInfo'') \<and>
   map_of (heap (snd (APIRequest env_5_fail ''user/userInfo'' (Some 0) plain_options caller_state)) 0)
     ''timeStamp'' = Some (Num 1600000001) \<and>
   map_of (heap (snd (APIRequest env_5_fail ''user/userInfo'' (Some 0) plain_options caller_state)) 0)
     ''mgd'' = Some (Num 2) \<and>
   map_of (heap (snd (APIRequest env_5_fail ''user/userInfo'' (Some 0) plain_options caller_state)) 0)
     ''commandNum'' = Some (Str ''.1600000002.2'') \<and>
   map_of (heap (snd (APIRequest env_5_fail ''user/userInfo'' (Some 0) plain_options caller_state)) 0)
     ''extra'' = Some (Num 7) \<and>
   map_of (heap (snd (APIRequest env_5_fail ''user/'' (Some 0) plain_options caller_state)) 0)
     ''module'' = Some (Str ''user'') \<and>
   map_of (heap (snd (APIRequest env_5_fail ''user/'' (Some 0) plain_options caller_state)) 0)
     ''action'' = Some (Str '''') \<and>
   map_of (heap (snd (APIRequest env_5_fail ''user'' (Some 0) plain_options caller_state)) 0)
     ''module'' = Some (Str ''user'') \<and>
   map_of (heap (snd (APIRequest env_5_fail ''user'' (Some 0) plain_options caller_state)) 0)
     ''action'' = Some Undefined \<and>
   map_of (heap (snd (APIRequest env_5_fail '''' (Some 0) plain_options caller_state)) 0)
     ''module'' = Some (Str '''') \<and>
   map_of (heap (snd (APIRequest env_5_fail '''' (Some 0) plain_options caller_state)) 0)
     ''action'' = Some Undefined"
proof -
  have x: "\<not> excludeDefaultValues plain_options" by (simp add: plain_options_def)
  have h: "heap caller_state 0 = [(''module'', Str ''mine''), (''commandNum'', Null), (''extra'', Num 7)]"
    "ticks caller_state = 0" "gris caller_state = initial_Gris" "sent caller_state = []"
    by (simp_all add: caller_state_def new_object_def new_state_def)
  have t: "ticks (restamp env_5_fail 0 caller_state) = 1"
    by (simp add: restamp_def Let_def has_key_def h timeStamp_pair command_token_pair)
  have c: "clock env_5_fail (Suc 0) = 1600000001" "clock env_5_fail (Suc (Suc 0)) = 1600000002"
    by (simp_all add: env_5_fail_def clock_example_env)
  have k: "token_at env_5_fail caller_state (Suc (Suc 0)) = Str ''.1600000002.2''"
    by (simp add: token_at_def h c Number_toString_examples new_state_simps initial_Gris_def)
  have m: "gameMode_value (mgd (session initial_Gris)) = 2"
    by (simp add: initial_Gris_def)
  have s: "at_index (split ''user/userInfo'' CHR ''/'') 0 = Str ''user''"
    "at_index (split ''user/userInfo'' CHR ''/'') 1 = Str ''userInfo''"
    "at_index (split ''user/'' CHR ''/'') 0 = Str ''user''"
    "at_index (split ''user/'' CHR ''/'') 1 = Str ''''"
    "at_index (split ''user'' CHR ''/'') 0 = Str ''user''"
    "at_index (split ''user'' CHR ''/'') 1 = Undefined"
    "at_index (split '''' CHR ''/'') 0 = Str ''''"
    "at_index (split '''' CHR ''/'') 1 = Undefined"
    by (simp_all add: at_index_def)
  have f: "fst (APIRequest env_5_fail ''user/userInfo'' (Some 0) plain_options caller_state) =
     Inl (MaxAttempts ''timeout'')"
    by (simp add: APIRequest_fst envelope_post_def h eval_defs)
  note r = APIRequest_writes_into_callers_object [OF x, of env_5_fail _ 0 caller_state]
  show ?thesis
    using r [of "''user/userInfo''"] r [of "''user/''"] r [of "''user''"] r [of "''''"]
    unfolding s
    by (simp add: x h t c k m f)
qed

section \<open>Properties of the constructor and of login\<close>

lemma list_all2_replicate_left:
  "list_all2 (\<lambda>p c. p c) (replicate n P) xs = (length xs = n \<and> list_all P xs)"
proof (induction n arbitrary: xs)
  case 0
  show ?case by auto
next
  case (Suc n)
  show ?case by (cases xs) (auto simp: Suc.IH)
qed

lemma loginPasswd_ok_iff: "loginPasswd_ok p = (length p = 128 \<and> list_all cls_0_9A_Z p)"
  by (auto simp: loginPasswd_ok_def match_prefix_def loginPasswd_pattern_def
        list_all2_replicate_left)

lemma guarded_if:
  "b2 \<Longrightarrow> (if b1 then x else if b2 then y else z) = x \<or> (if b1 then x else if b2 then y else z) = y"
  by simp

lemma list_all2_append_left:
  "list_all2 P (ps @ qs) s =
     (list_all2 P ps (take (length ps) s) \<and> list_all2 P qs (drop (length ps) s))"
proof
  assume "list_all2 P (ps @ qs) s"
  then obtain us vs where "s = us @ vs" "length us = length ps" "list_all2 P ps us" "list_all2 P qs vs"
    by (auto simp: list_all2_append1)
  then show "list_all2 P ps (take (length ps) s) \<and> list_all2 P qs (drop (length ps) s)"
    by simp
next
  assume a: "list_all2 P ps (take (length ps) s) \<and> list_all2 P qs (drop (length ps) s)"
  then have "list_all2 P (ps @ qs) (take (length ps) s @ drop (length ps) s)"
    by (metis list_all2_appendI)
  then show "list_all2 P (ps @ qs) s" by simp
qed

lemma loginKey_ok_example: "loginKey_ok ''3fa85f64-5717-4562-b3fc-2c963f66afa6''"
  by (simp add: loginKey_ok_def match_whole_def loginKey_pattern_def list_all2_append_left
        list_all2_replicate_left cls_0_9A_F_def cls_89AB_def cls_lit_def)

lemma loginPasswd_ok_example: "loginPasswd_ok (replicate 128 CHR ''G'')"
  by (simp add: loginPasswd_ok_iff list_all_iff cls_0_9A_Z_def)

lemma assign_if_keychain:
  "(\<And>v g. keychain (assign v g) = keychain g) \<Longrightarrow>
   keychain (assign_if x test assign g) = keychain g"
  by (simp add: assign_if_def split: option.splits)

lemma constructor_example:
  "constructor example_options =
     Inr (initial_Gris\<lparr>keychain :=
            \<lparr> rsaPublicKey = replicate 250 CHR ''k'', applicationKey = replicate 32 CHR ''a'',
              baseKey = replicate 32 CHR ''b'',
              loginKey = ''3fa85f64-5717-4562-b3fc-2c963f66afa6'',
              loginPasswd = replicate 128 CHR ''G'', sessionKey = replicate 32 0 \<rparr>\<rparr>)"
  unfolding constructor_def Let_def example_options_def
  by (simp add: assign_if_def loginKey_ok_example loginPasswd_ok_example initial_Gris_def)

lemma example_client_simps:
  "loginKey (keychain example_client) = ''3fa85f64-5717-4562-b3fc-2c963f66afa6''"
  "loginPasswd (keychain example_client) = replicate 128 CHR ''G''"
  "applicationId example_client = 626776655"
  by (simp_all add: example_client_def constructor_example initial_Gris_def
        defaultApplicationId_def)

lemma login_lookup_fails:
  assumes "loginKey_ok (loginKey (keychain (gris s)))"
    and "loginPasswd_ok (loginPasswd (keychain (gris s)))"
    and "lookup env (length (lookups s)) = Inl e"
  shows "login env s = (Inl e, s\<lparr>lookups := lookups s @ [applicationId (gris s)]\<rparr>)"
proof -
  have g: "\<not> (length (loginKey (keychain (gris s))) \<noteq> 36 \<or>
              \<not> match_whole loginKey_pattern (loginKey (keychain (gris s))))"
    "\<not> (length (loginPasswd (keychain (gris s))) \<noteq> 128 \<or>
        \<not> match_prefix loginPasswd_pattern (loginPasswd (keychain (gris s))))"
    using assms(1,2) by (simp_all add: loginKey_ok_def loginPasswd_ok_def)
  have l: "getLatestBundleVersion env None s =
             (Inl e, s\<lparr>lookups := lookups s @ [applicationId (gris s)]\<rparr>)"
    using assms(3) by (simp add: getLatestBundleVersion_def)
  show ?thesis
    unfolding login_def by (simp only: g if_False l prod.case sum.case)
qed

text \<open>
  C9. The constructor raises on an \<open>applicationKey\<close> or \<open>baseKey\<close> that is not 32
  characters long and on a \<open>publicKey\<close> shorter than 250; whether it raises does not
  depend on \<open>loginKey\<close> and \<open>loginPasswd\<close>; and when it returns, a \<open>loginKey\<close> or
  \<open>loginPasswd\<close> that fails its format test has been left out: the field of the keychain
  is the empty string.
\<close>

theorem constructor_credential_checks:
  "(length (opt_baseKey options) \<noteq> 32 \<or> length (opt_applicationKey options) \<noteq> 32 \<longrightarrow>
      constructor options = Inl KeyFormatError) \<and>
   (length (opt_baseKey options) = 32 \<and> length (opt_applicationKey options) = 32 \<and>
    length (opt_publicKey options) < 250 \<longrightarrow>
      constructor options = Inl PublicKeyError) \<and>
   isl (constructor (options\<lparr>opt_loginKey := k, opt_loginPasswd := p\<rparr>)) =
     isl (constructor options) \<and>
   (constructor options = Inr g \<longrightarrow>
      loginKey (keychain g) =
        (case opt_loginKey options of
           None \<Rightarrow> [] | Some k \<Rightarrow> if loginKey_ok k then k else []) \<and>
      loginPasswd (keychain g) =
        (case opt_loginPasswd options of
           None \<Rightarrow> [] | Some p \<Rightarrow> if loginPasswd_ok p then p else []))"
proof (intro conjI impI)
  show "length (opt_baseKey options) \<noteq> 32 \<or> length (opt_applicationKey options) \<noteq> 32 \<Longrightarrow>
      constructor options = Inl KeyFormatError"
    by (simp add: constructor_def Let_def)
  show "length (opt_baseKey options) = 32 \<and> length (opt_applicationKey options) = 32 \<and>
    length (opt_publicKey options) < 250 \<Longrightarrow> constructor options = Inl PublicKeyError"
    by (simp add: constructor_def Let_def)
  show "isl (constructor (options\<lparr>opt_loginKey := k, opt_loginPasswd := p\<rparr>)) =
     isl (constructor options)"
    by (simp add: constructor_def Let_def)
next
  assume c: "constructor options = Inr g"
  define g1 where "g1 = assign_if (opt_loginKey options) loginKey_ok
                 (\<lambda>k g. g\<lparr>keychain := (keychain g)\<lparr>loginKey := k\<rparr>\<rparr>) initial_Gris"
  define g2 where "g2 = assign_if (opt_loginPasswd options) loginPasswd_ok
                 (\<lambda>p g. g\<lparr>keychain := (keychain g)\<lparr>loginPasswd := p\<rparr>\<rparr>) g1"
  define g3 where "g3 = g2\<lparr>keychain := (keychain g2)
                         \<lparr>rsaPublicKey := opt_publicKey options,
                          applicationKey := opt_applicationKey options,
                          baseKey := opt_baseKey options\<rparr>\<rparr>"
  have "g = assign_if (opt_gameMode options) (\<lambda>m. True)
              (\<lambda>m g. g\<lparr>session := (session g)\<lparr>mgd := m\<rparr>\<rparr>)
            (assign_if (opt_osVersion options) (\<lambda>v. v \<noteq> []) (\<lambda>v g. g\<lparr>osVersion := v\<rparr>)
            (assign_if (opt_platformType options) (\<lambda>p. True) (\<lambda>p g. g\<lparr>platformType := p\<rparr>)
            (assign_if (opt_applicationId options) (\<lambda>a. a \<noteq> 0) (\<lambda>a g. g\<lparr>applicationId := a\<rparr>)
            (assign_if (opt_host options) (\<lambda>h. h \<noteq> []) (\<lambda>h g. g\<lparr>HOST := h\<rparr>) g3))))"
    using c unfolding constructor_def Let_def g3_def g2_def g1_def
    by (simp split: if_splits)
  then have k: "keychain g = keychain g3"
    by (simp add: assign_if_keychain)
  have l1: "loginKey (keychain g1) =
        (case opt_loginKey options of
           None \<Rightarrow> [] | Some k \<Rightarrow> if loginKey_ok k then k else [])"
    "loginPasswd (keychain g1) = []"
    by (simp_all add: g1_def assign_if_def initial_Gris_def split: option.splits)
  have l2: "loginKey (keychain g2) = loginKey (keychain g1)"
    "loginPasswd (keychain g2) =
        (case opt_loginPasswd options of
           None \<Rightarrow> [] | Some p \<Rightarrow> if loginPasswd_ok p then p else [])"
    by (simp_all add: g2_def assign_if_def l1 split: option.splits)
  show "loginKey (keychain g) =
        (case opt_loginKey options of
           None \<Rightarrow> [] | Some k \<Rightarrow> if loginKey_ok k then k else [])"
    unfolding k by (simp add: g3_def l1 l2)
  show "loginPasswd (keychain g) =
        (case opt_loginPasswd options of
           None \<Rightarrow> [] | Some p \<Rightarrow> if loginPasswd_ok p then p else [])"
    unfolding k by (simp add: g3_def l2)
qed

theorem constructor_credential_checks_witness:
  "constructor short_key_options = Inl KeyFormatError \<and>
   constructor short_public_key_options = Inl PublicKeyError \<and>
   \<not> loginKey_ok ''not-a-uuid'' \<and> \<not> loginPasswd_ok ''0123ABCD'' \<and>
   \<not> isl (constructor short_passwd_options) \<and>
   loginKey (keychain (projr (constructor short_passwd_options))) = [] \<and>
   loginPasswd (keychain (projr (constructor short_passwd_options))) = []"
proof -
  have a: "length (opt_baseKey short_key_options) \<noteq> 32 \<or>
           length (opt_applicationKey short_key_options) \<noteq> 32"
    by (simp add: short_key_options_def example_options_def)
  have b: "length (opt_baseKey short_public_key_options) = 32 \<and>
           length (opt_applicationKey short_public_key_options) = 32 \<and>
           length (opt_publicKey short_public_key_options) < 250"
    by (simp add: short_public_key_options_def example_options_def)
  have c: "\<not> loginKey_ok ''not-a-uuid''" "\<not> loginPasswd_ok ''0123ABCD''"
    by (simp_all add: loginKey_ok_def loginPasswd_ok_def)
  have d: "short_passwd_options =
             example_options\<lparr>opt_loginKey := Some ''not-a-uuid'', opt_loginPasswd := Some ''0123ABCD''\<rparr>"
    by (simp add: short_passwd_options_def)
  have e: "\<not> isl (constructor example_options)"
    by (simp add: constructor_example)
  have f: "opt_loginKey short_passwd_options = Some ''not-a-uuid''"
    "opt_loginPasswd short_passwd_options = Some ''0123ABCD''"
    by (simp_all add: short_passwd_options_def)
  note t1 = constructor_credential_checks [where options = short_key_options]
  note t2 = constructor_credential_checks [where options = short_public_key_options]
  note t3 = constructor_credential_checks [where options = example_options
      and k = "Some ''not-a-uuid''" and p = "Some ''0123ABCD''"]
  note t4 = constructor_credential_checks [where options = short_passwd_options
      and g = "projr (constructor short_passwd_options)"]
  have i: "\<not> isl (constructor short_passwd_options)"
    using t3 e unfolding d by blast
  then have r: "constructor short_passwd_options = Inr (projr (constructor short_passwd_options))"
    by (cases "constructor short_passwd_options") simp_all
  show ?thesis
    using t1 t2 t4 a b c i r by (simp add: f)
qed

text \<open>
  C3, amended. Whenever the stored \<open>loginPasswd\<close> is not exactly 128 characters, each a
  digit or a letter \<open>A\<close> to \<open>Z\<close> in either case, \<open>login\<close> ends with one of its two format
  errors and leaves the state as it was: nothing has been looked up or transmitted.
\<close>

theorem login_rejects_before_network:
  "\<not> (length (loginPasswd (keychain (gris s))) = 128 \<and>
       list_all cls_0_9A_Z (loginPasswd (keychain (gris s)))) \<longrightarrow>
   login env s = (Inl LoginKeyError, s) \<or> login env s = (Inl LoginPasswdError, s)"
proof
  assume "\<not> (length (loginPasswd (keychain (gris s))) = 128 \<and>
       list_all cls_0_9A_Z (loginPasswd (keychain (gris s))))"
  then have "\<not> loginPasswd_ok (loginPasswd (keychain (gris s)))"
    by (simp add: loginPasswd_ok_iff)
  then have "length (loginPasswd (keychain (gris s))) \<noteq> 128 \<or>
             \<not> match_prefix loginPasswd_pattern (loginPasswd (keychain (gris s)))"
    by (simp add: loginPasswd_ok_def)
  then show "login env s = (Inl LoginKeyError, s) \<or> login env s = (Inl LoginPasswdError, s)"
    unfolding login_def by (rule guarded_if)
qed

theorem login_rejects_before_network_witness:
  "length (loginPasswd (keychain (gris (new_state dash_passwd_client)))) = 128 \<and>
   \<not> list_all cls_0_9A_Z (loginPasswd (keychain (gris (new_state dash_passwd_client)))) \<and>
   login env_ok (new_state dash_passwd_client) = (Inl LoginPasswdError, new_state dash_passwd_client) \<and>
   sent (snd (login env_ok (new_state dash_passwd_client))) = [] \<and>
   lookups (snd (login env_ok (new_state dash_passwd_client))) = []"
proof -
  let ?s = "new_state dash_passwd_client"
  have p: "loginPasswd (keychain (gris ?s)) = replicate 127 CHR ''A'' @ ''-''"
    "loginKey (keychain (gris ?s)) = ''3fa85f64-5717-4562-b3fc-2c963f66afa6''"
    by (simp_all add: new_state_simps dash_passwd_client_def example_client_simps)
  have l: "length (loginPasswd (keychain (gris ?s))) = 128" by (simp add: p)
  have n: "\<not> list_all cls_0_9A_Z (loginPasswd (keychain (gris ?s)))"
    by (simp add: p cls_0_9A_Z_def)
  have h: "\<not> (length (loginPasswd (keychain (gris ?s))) = 128 \<and>
              list_all cls_0_9A_Z (loginPasswd (keychain (gris ?s))))"
    using n by simp
  have g: "\<not> (length (loginKey (keychain (gris ?s))) \<noteq> 36 \<or>
              \<not> match_whole loginKey_pattern (loginKey (keychain (gris ?s))))"
    using loginKey_ok_example by (simp add: p loginKey_ok_def)
  have "\<not> loginPasswd_ok (loginPasswd (keychain (gris ?s)))"
    using n by (simp add: loginPasswd_ok_iff)
  then have g2: "length (loginPasswd (keychain (gris ?s))) \<noteq> 128 \<or>
              \<not> match_prefix loginPasswd_pattern (loginPasswd (keychain (gris ?s)))"
    by (simp add: loginPasswd_ok_def)
  have k: "login env_ok ?s \<noteq> (Inl LoginKeyError, ?s)"
    unfolding login_def by (simp only: g g2 if_False if_True) simp
  from login_rejects_before_network [of ?s env_ok] h k
  have "login env_ok ?s = (Inl LoginPasswdError, ?s)"
    by blast
  with l n show ?thesis by (simp add: new_state_def)
qed

text \<open>
  C3, as stated, fails. A password of 128 letters \<open>G\<close>, none of them a hexadecimal
  digit, is stored by the constructor and passes the check of \<open>login\<close>, which goes on to
  the version lookup, its first network call.
\<close>

theorem non_hex_passwd_accepted_counterexample:
  "length (loginPasswd (keychain (gris (new_state example_client)))) = 128 \<and>
   set (loginPasswd (keychain (gris (new_state example_client)))) = {CHR ''G''} \<and>
   \<not> cls_0_9A_F CHR ''G'' \<and>
   constructor example_options = Inr example_client \<and>
   fst (login env_ok (new_state example_client)) = Inl (LookupError ''offline'') \<and>
   lookups (snd (login env_ok (new_state example_client))) = [626776655]"
proof -
  have 1: "loginKey_ok (loginKey (keychain (gris (new_state example_client))))"
    "loginPasswd_ok (loginPasswd (keychain (gris (new_state example_client))))"
    by (simp_all add: new_state_simps example_client_simps loginKey_ok_example
          loginPasswd_ok_example)
  have 2: "lookup env_ok (length (lookups (new_state example_client))) = Inl (LookupError ''offline'')"
    by (simp add: env_ok_def example_env_def)
  have 3: "constructor example_options = Inr example_client"
    by (simp add: example_client_def constructor_example)
  show ?thesis
    unfolding login_lookup_fails [OF 1 2]
    by (simp add: new_state_simps example_client_simps cls_0_9A_F_def 3 new_state_def)
qed

end
